theory Spec2Isabelle
  imports Main
begin

section \<open>JavaScript values and strings\<close>

text \<open>
  A JavaScript string is modelled as a \<open>string\<close>: a list of characters, each standing
  for one code unit below U+0100. \<open>trim\<close> and \<open>toLowerCase\<close> are the ECMAScript
  functions on that range: the white space and line terminators there are U+0009 to
  U+000D, U+0020 and U+00A0, and the letters with a lower-case form there are A to Z and
  U+00C0 to U+00DE without U+00D7.
\<close>

definition isWhiteSpace :: "char \<Rightarrow> bool" where
  "isWhiteSpace c = (of_char c \<in> {9, 10, 11, 12, 13, 32, 160 :: nat})"

definition trim :: "string \<Rightarrow> string" where
  "trim s = rev (dropWhile isWhiteSpace (rev (dropWhile isWhiteSpace s)))"

definition toLowerChar :: "char \<Rightarrow> char" where
  "toLowerChar c =
     (let n = (of_char c :: nat)
      in if (65 \<le> n \<and> n \<le> 90) \<or> (192 \<le> n \<and> n \<le> 222 \<and> n \<noteq> 215)
         then char_of (n + 32) else c)"

definition toLowerCase :: "string \<Rightarrow> string" where
  "toLowerCase s = map toLowerChar s"

text \<open>Decimal text of a number, as a template literal prints an integer.\<close>

fun show_nat :: "nat \<Rightarrow> string" where
  "show_nat n =
     (if n < 10 then [char_of (48 + n)]
      else show_nat (n div 10) @ [char_of (48 + n mod 10)])"

declare show_nat.simps [simp del]

definition show_int :: "int \<Rightarrow> string" where
  "show_int i = (if i < 0 then CHR ''-'' # show_nat (nat (- i)) else show_nat (nat i))"

text \<open>\<open>xs.join(sep)\<close> on an array of strings.\<close>

fun join :: "string \<Rightarrow> string list \<Rightarrow> string" where
  "join sep [] = []"
| "join sep [x] = x"
| "join sep (x # y # ys) = x @ sep @ join sep (y # ys)"

text \<open>
  The values a field of a JSON record of the two platforms holds. Numbers are the
  integers (identifiers and counts) of magnitude below 10^21, which JavaScript prints
  in plain decimal; nested objects and arrays do not occur in the fields the scripts
  read.
\<close>

datatype jsval = JUndefined | JNull | JBool bool | JNum int | JStr string

fun truthy :: "jsval \<Rightarrow> bool" where
  "truthy JUndefined = False"
| "truthy JNull = False"
| "truthy (JBool b) = b"
| "truthy (JNum n) = (n \<noteq> 0)"
| "truthy (JStr s) = (s \<noteq> [])"

text \<open>\<open>a || b\<close>\<close>

definition or_else :: "jsval \<Rightarrow> jsval \<Rightarrow> jsval" where
  "or_else a b = (if truthy a then a else b)"

text \<open>The text a template literal puts for \<open>${v}\<close>.\<close>

fun toString :: "jsval \<Rightarrow> string" where
  "toString JUndefined = ''undefined''"
| "toString JNull = ''null''"
| "toString (JBool b) = (if b then ''true'' else ''false'')"
| "toString (JNum n) = show_int n"
| "toString (JStr s) = s"

text \<open>
  What the scripts send to the console. \<open>Log message type\<close> is a call
  \<open>log(message, type)\<close> of utils.js, which prints the message behind a time stamp and
  the upper-cased type, on the error stream when the type is \<open>error\<close>;
  \<open>ConsoleError text\<close> is a direct \<open>console.error\<close> whose arguments print as
  \<open>text\<close>.
\<close>

datatype console_call = Log string string | ConsoleError string

section \<open>utils.js\<close>

text \<open>
  \<open>isValidSKU(sku)\<close>: \<open>sku && typeof sku === 'string' && sku.trim().length > 0\<close>,
  read as a condition.
\<close>

fun isValidSKU :: "jsval \<Rightarrow> bool" where
  "isValidSKU (JStr s) = (s \<noteq> [] \<and> length (trim s) > 0)"
| "isValidSKU v = False"

text \<open>
  One request of a pagination loop gives \<open>Page data\<close>, the array read from the response,
  or \<open>Failed message\<close> when anything inside the \<open>try\<close> block throws (the request is
  rejected or times out, or the body holds no array to spread); \<open>message\<close> is
  \<open>error.message\<close>. Each loop asks for every page number (or offset) at most once, so a
  platform is a function from the page number (or offset) to what that request gives.
\<close>

datatype 'a response = Page "'a list" | Failed string

record 'a pagination =
  allResults :: "'a list"
  requests :: "nat list"
  console :: "console_call list"

text \<open>
  \<open>paginateBigCommerce\<close>: \<open>page\<close> starts at 1 and \<open>limit\<close> is 250. The loop is
  \<open>while (true)\<close>, left only by the two \<open>break\<close>s, so it is a partial function:
  \<open>None\<close> is a run that never returns. \<open>requests\<close> lists the page numbers asked for.
\<close>

partial_function (option) paginateBigCommerce_loop ::
  "(nat \<Rightarrow> 'a response) \<Rightarrow> nat \<Rightarrow> 'a pagination \<Rightarrow> 'a pagination option" where
  "paginateBigCommerce_loop get page st =
     (case get page of
        Page data \<Rightarrow>
          if length data < 250
          then Some (st\<lparr>allResults := allResults st @ data,
                         requests := requests st @ [page]\<rparr>)
          else paginateBigCommerce_loop get (page + 1)
                 (st\<lparr>allResults := allResults st @ data,
                      requests := requests st @ [page]\<rparr>)
      | Failed message \<Rightarrow>
          Some (st\<lparr>requests := requests st @ [page],
                    console := console st @
                      [ConsoleError (''Error fetching page '' @ show_nat page @ '': '' @ message)]\<rparr>))"

definition paginateBigCommerce :: "(nat \<Rightarrow> 'a response) \<Rightarrow> 'a pagination option" where
  "paginateBigCommerce get =
     paginateBigCommerce_loop get 1 \<lparr>allResults = [], requests = [], console = []\<rparr>"

text \<open>
  \<open>paginateAvalara\<close>: \<open>skip\<close> starts at 0 and grows by \<open>top\<close>, which is 100.
  \<open>requests\<close> lists the offsets asked for.
\<close>

partial_function (option) paginateAvalara_loop ::
  "(nat \<Rightarrow> 'a response) \<Rightarrow> nat \<Rightarrow> 'a pagination \<Rightarrow> 'a pagination option" where
  "paginateAvalara_loop get skip st =
     (case get skip of
        Page data \<Rightarrow>
          if length data < 100
          then Some (st\<lparr>allResults := allResults st @ data,
                         requests := requests st @ [skip]\<rparr>)
          else paginateAvalara_loop get (skip + 100)
                 (st\<lparr>allResults := allResults st @ data,
                      requests := requests st @ [skip]\<rparr>)
      | Failed message \<Rightarrow>
          Some (st\<lparr>requests := requests st @ [skip],
                    console := console st @
                      [ConsoleError (''Error fetching skip '' @ show_nat skip @ '': '' @ message)]\<rparr>))"

definition paginateAvalara :: "(nat \<Rightarrow> 'a response) \<Rightarrow> 'a pagination option" where
  "paginateAvalara get =
     paginateAvalara_loop get 0 \<lparr>allResults = [], requests = [], console = []\<rparr>"

section \<open>scripts/fetch-bc-products.js\<close>

text \<open>
  A product as the catalog platform returns it and as the script writes it: the three
  fields the script reads. \<open>writeRecords\<close> stands for the CSV writer: \<open>None\<close> when the
  rows are written, \<open>Some message\<close> when the write is rejected with that
  \<open>error.message\<close>.
\<close>

record product =
  prod_id :: jsval
  prod_sku :: jsval
  prod_name :: jsval

definition processProduct :: "product \<Rightarrow> product" where
  "processProduct p =
     \<lparr>prod_id = or_else (prod_id p) (JStr []),
      prod_sku = or_else (prod_sku p) (JStr []),
      prod_name = or_else (prod_name p) (JStr [])\<rparr>"

definition invalidSkuMessage :: "product \<Rightarrow> string" where
  "invalidSkuMessage p =
     ''Product ID '' @ toString (prod_id p) @ '' ('' @ toString (prod_name p) @
     '') has invalid SKU: '' @ [CHR 0x22] @ toString (prod_sku p) @ [CHR 0x22]"

record bc_fetch =
  bc_console :: "console_call list"
  bc_requests :: "nat list"
  validProducts :: "product list"
  invalidProducts :: "product list"
  bc_written :: "product list option"
  bc_outcome :: "string + product list"

text \<open>
  \<open>fetchBigCommerceProducts\<close>. \<open>bc_written\<close> is the content of bc-products.csv after
  the run (\<open>None\<close> when the write was rejected); \<open>bc_outcome\<close> is the returned list, or
  \<open>Inl\<close> the message of the error the function rethrows.
\<close>

definition fetchBigCommerceProducts ::
  "(nat \<Rightarrow> product response) \<Rightarrow> (product list \<Rightarrow> string option) \<Rightarrow> bc_fetch option" where
  "fetchBigCommerceProducts get writeRecords =
     (case paginateBigCommerce get of
        None \<Rightarrow> None
      | Some pg \<Rightarrow>
          let products = allResults pg;
              processedProducts = map processProduct products;
              valid = filter (\<lambda>p. isValidSKU (prod_sku p)) processedProducts;
              invalid = filter (\<lambda>p. \<not> isValidSKU (prod_sku p)) processedProducts;
              out1 =
                [Log ''Starting BigCommerce products fetch...'' ''info'',
                 Log ''Fetching active products from BigCommerce...'' ''info''] @
                console pg @
                [Log (''Retrieved '' @ show_nat (length products) @
                      '' products from BigCommerce'') ''info''] @
                (if length invalid > 0
                 then Log (''Warning: '' @ show_nat (length invalid) @
                           '' products found without valid SKUs'') ''error'' #
                      map (\<lambda>p. Log (invalidSkuMessage p) ''error'') invalid
                 else [])
          in (case writeRecords valid of
               None \<Rightarrow>
                 Some \<lparr>bc_console = out1 @
                         [Log (''Successfully wrote '' @ show_nat (length valid) @
                               '' valid products to ./output/bc-products.csv'') ''info'',
                          Log (''Summary: '' @ show_nat (length valid) @
                               '' valid products with SKUs'') ''info''],
                       bc_requests = requests pg,
                       validProducts = valid,
                       invalidProducts = invalid,
                       bc_written = Some valid,
                       bc_outcome = Inr valid\<rparr>
             | Some message \<Rightarrow>
                 Some \<lparr>bc_console = out1 @
                         [Log (''Error fetching BigCommerce products: '' @ message) ''error''],
                       bc_requests = requests pg,
                       validProducts = valid,
                       invalidProducts = invalid,
                       bc_written = None,
                       bc_outcome = Inl message\<rparr>))"

section \<open>scripts/fetch-avalara-items.js\<close>

record item =
  item_itemCode :: jsval
  item_itemGroup :: jsval
  item_category :: jsval

definition processItem :: "item \<Rightarrow> item" where
  "processItem i =
     \<lparr>item_itemCode = or_else (item_itemCode i) (JStr []),
      item_itemGroup = or_else (item_itemGroup i) (JStr []),
      item_category = or_else (item_category i) (JStr [])\<rparr>"

record avalara_fetch =
  av_console :: "console_call list"
  av_requests :: "nat list"
  av_written :: "item list option"
  av_outcome :: "string + item list"

definition fetchAvalaraItems ::
  "(nat \<Rightarrow> item response) \<Rightarrow> (item list \<Rightarrow> string option) \<Rightarrow> avalara_fetch option" where
  "fetchAvalaraItems get writeRecords =
     (case paginateAvalara get of
        None \<Rightarrow> None
      | Some pg \<Rightarrow>
          let items = allResults pg;
              processedItems = map processItem items;
              out1 =
                [Log ''Starting Avalara items fetch...'' ''info'',
                 Log ''Fetching all items from Avalara...'' ''info''] @
                console pg @
                [Log (''Retrieved '' @ show_nat (length items) @ '' items from Avalara'') ''info'',
                 Log ''Processing items...'' ''info'']
          in (case writeRecords processedItems of
               None \<Rightarrow>
                 let itemsWithGroup =
                       length (filter (\<lambda>i. truthy (item_itemGroup i)) processedItems);
                     itemsWithCategory =
                       length (filter (\<lambda>i. truthy (item_category i)) processedItems)
                 in Some \<lparr>av_console = out1 @
                            [Log (''Successfully wrote '' @ show_nat (length processedItems) @
                                  '' items to ./output/avalara-items.csv'') ''info'',
                             Log (''Summary: '' @ show_nat itemsWithGroup @
                                  '' items have item groups, '' @ show_nat itemsWithCategory @
                                  '' have categories'') ''info''],
                          av_requests = requests pg,
                          av_written = Some processedItems,
                          av_outcome = Inr processedItems\<rparr>
             | Some message \<Rightarrow>
                 Some \<lparr>av_console = out1 @
                         [Log (''Error fetching Avalara items: '' @ message) ''error''],
                       av_requests = requests pg,
                       av_written = None,
                       av_outcome = Inl message\<rparr>))"

section \<open>scripts/reconcile-products.js\<close>

text \<open>
  The rows the CSV reader gives for the two input files, as the two fetchers write
  them: every row has every column of the header, and every column is a string.
\<close>

record avalara_row =
  itemCode :: string
  itemGroup :: string
  category :: string

record bc_row =
  bc_id :: string
  bc_sku :: string
  bc_name :: string

record recon_row =
  product_id :: string
  sku :: string
  name :: string
  exists_in_avalara :: string
  is_missing_data :: string
  missing_fields :: string
  avalara_item_group :: string
  avalara_category :: string
  reason :: string

text \<open>
  \<open>avalaraMap\<close>: the \<open>forEach\<close> over the registry rows that fills the \<open>Map\<close>. A row
  is stored only when \<open>item.itemCode && item.itemCode.trim()\<close> holds; a later row with
  the same key replaces the earlier one.
\<close>

definition buildAvalaraMap :: "avalara_row list \<Rightarrow> (string \<rightharpoonup> avalara_row)" where
  "buildAvalaraMap avalaraItems =
     fold (\<lambda>item m.
             if itemCode item \<noteq> [] \<and> trim (itemCode item) \<noteq> []
             then m(toLowerCase (trim (itemCode item)) \<mapsto> item)
             else m)
          avalaraItems Map.empty"

datatype verdict = MissingInAvalara | MissingData | Complete

text \<open>
  The body of \<open>bcProducts.forEach\<close>: the \<open>result\<close> object as it stands at the end of the
  callback, and which of the three counters the callback raises. The result is pushed
  to \<open>productsToUpdate\<close> unless the verdict is \<open>Complete\<close>.
\<close>

definition reconcileProduct :: "(string \<rightharpoonup> avalara_row) \<Rightarrow> bc_row \<Rightarrow> recon_row \<times> verdict" where
  "reconcileProduct avalaraMap product =
     (let avalaraItem = avalaraMap (toLowerCase (trim (bc_sku product)));
          result =
            \<lparr>product_id = bc_id product,
             sku = bc_sku product,
             name = bc_name product,
             exists_in_avalara = (case avalaraItem of Some i \<Rightarrow> ''yes'' | None \<Rightarrow> ''no''),
             is_missing_data = ''no'',
             missing_fields = [],
             avalara_item_group = (case avalaraItem of Some i \<Rightarrow> itemGroup i | None \<Rightarrow> []),
             avalara_category = (case avalaraItem of Some i \<Rightarrow> category i | None \<Rightarrow> []),
             reason = []\<rparr>
      in case avalaraItem of
           None \<Rightarrow> (result\<lparr>reason := ''Product not registered in Avalara''\<rparr>, MissingInAvalara)
         | Some i \<Rightarrow>
             let missingFields =
                   (if itemGroup i = [] \<or> trim (itemGroup i) = [] then [''itemGroup''] else []) @
                   (if category i = [] \<or> trim (category i) = [] then [''category''] else [])
             in if length missingFields > 0
                then (result\<lparr>is_missing_data := ''yes'',
                             missing_fields := join '', '' missingFields,
                             reason := ''Missing required fields: '' @ join '', '' missingFields\<rparr>,
                      MissingData)
                else (result, Complete))"

record recon_state =
  productsToUpdate :: "recon_row list"
  missingInAvalara :: nat
  missingData :: nat
  complete :: nat

definition reconcileStep :: "(string \<rightharpoonup> avalara_row) \<Rightarrow> bc_row \<Rightarrow> recon_state \<Rightarrow> recon_state" where
  "reconcileStep avalaraMap product st =
     (case reconcileProduct avalaraMap product of
        (result, MissingInAvalara) \<Rightarrow>
          st\<lparr>productsToUpdate := productsToUpdate st @ [result],
             missingInAvalara := missingInAvalara st + 1\<rparr>
      | (result, MissingData) \<Rightarrow>
          st\<lparr>productsToUpdate := productsToUpdate st @ [result],
             missingData := missingData st + 1\<rparr>
      | (result, Complete) \<Rightarrow> st\<lparr>complete := complete st + 1\<rparr>)"

text \<open>
  \<open>reconcileProducts\<close>, from the two input files (\<open>None\<close> for a file that does not
  exist) to the rows written to products-to-update.csv and the counters of the summary,
  or \<open>Inl\<close> the message of the error thrown. The console lines and the text report
  repeat the counters and are left out, and the CSV write is taken to succeed.
\<close>

definition reconcileProducts ::
  "avalara_row list option \<Rightarrow> bc_row list option \<Rightarrow> string + recon_state" where
  "reconcileProducts avalaraFile bcFile =
     (case avalaraFile of
        None \<Rightarrow> Inl (''Avalara items file not found: ./output/avalara-items.csv. '' @
                     ''Please run fetch-avalara-items.js first.'')
      | Some avalaraItems \<Rightarrow>
          (case bcFile of
             None \<Rightarrow> Inl (''BigCommerce products file not found: ./output/bc-products.csv. '' @
                          ''Please run fetch-bc-products.js first.'')
           | Some bcProducts \<Rightarrow>
               Inr (fold (reconcileStep (buildAvalaraMap avalaraItems)) bcProducts
                      \<lparr>productsToUpdate = [], missingInAvalara = 0, missingData = 0,
                       complete = 0\<rparr>)))"

section \<open>scripts/update-products.js\<close>

text \<open>
  A custom field of a product, and the error of a rejected request:
  \<open>err_response\<close> is \<open>error.response\<close> (its \<open>status\<close> and its \<open>data?.message\<close>),
  absent when no response arrived; \<open>err_message\<close> is \<open>error.message\<close>.
\<close>

record custom_field =
  cf_name :: string
  cf_value :: string

record axios_error =
  err_response :: "(nat \<times> string option) option"
  err_message :: string

text \<open>
  The catalog platform is a state of any type \<open>'s\<close> with its two endpoints. A
  \<open>GET\<close> of a product's custom fields gives the error thrown or \<open>response.data.data\<close>
  (\<open>None\<close> when the body has no such key); a \<open>POST\<close> gives the error thrown or
  nothing. Both give the platform's next state.
\<close>

type_synonym 's http_get = "'s \<Rightarrow> string \<Rightarrow> (axios_error + custom_field list option) \<times> 's"
type_synonym 's http_post = "'s \<Rightarrow> string \<Rightarrow> string \<Rightarrow> string \<Rightarrow> (axios_error + unit) \<times> 's"

definition getExistingCustomFields ::
  "'s http_get \<Rightarrow> 's \<Rightarrow> string \<Rightarrow> (axios_error + custom_field list) \<times> 's" where
  "getExistingCustomFields get s productId =
     (case get s productId of
        (Inr body, s') \<Rightarrow> (Inr (case body of Some fs \<Rightarrow> fs | None \<Rightarrow> []), s')
      | (Inl error, s') \<Rightarrow>
          (case err_response error of
             Some (status, m) \<Rightarrow> if status = 404 then (Inr [], s') else (Inl error, s')
           | None \<Rightarrow> (Inl error, s')))"

definition addCustomField ::
  "'s http_post \<Rightarrow> 's \<Rightarrow> string \<Rightarrow> string \<Rightarrow> string \<Rightarrow> (axios_error + unit) \<times> 's" where
  "addCustomField post s productId fieldName fieldValue = post s productId fieldName fieldValue"

record sync_entry =
  log_product_id :: string
  log_sku :: string
  log_exists_in_avalara :: string
  log_is_missing_data :: string
  status :: string
  timestamp :: string
  error_message :: string
  custom_field_added :: string

definition syncEntry :: "recon_row \<Rightarrow> string \<Rightarrow> string \<Rightarrow> string \<Rightarrow> string \<Rightarrow> sync_entry" where
  "syncEntry product st ts message added =
     \<lparr>log_product_id = product_id product,
      log_sku = sku product,
      log_exists_in_avalara = exists_in_avalara product,
      log_is_missing_data = is_missing_data product,
      status = st,
      timestamp = ts,
      error_message = message,
      custom_field_added = added\<rparr>"

text \<open>
  What a run does besides computing: requests to the platform, the awaited
  \<open>sleep(ms)\<close>, console lines, the rows given to the CSV writer and the text given to
  \<open>fs.writeFileSync\<close>, in the order they happen.
\<close>

datatype effect =
    HttpGet string
  | HttpPost string string string
  | Sleep nat
  | Console console_call
  | WriteRecords "sync_entry list"
  | WriteFile string string

record 's update_state =
  platform :: 's
  syncLog :: "sync_entry list"
  successCount :: nat
  errorCount :: nat
  skippedCount :: nat
  effects :: "effect list"

text \<open>The \<open>errorMessage\<close> of the \<open>catch\<close> block of the loop.\<close>

definition errorMessageOf :: "axios_error \<Rightarrow> string" where
  "errorMessageOf error =
     (case err_response error of
        Some (code, m) \<Rightarrow>
          show_nat code @ '': '' @
          (case m of Some t \<Rightarrow> if t \<noteq> [] then t else err_message error
                   | None \<Rightarrow> err_message error)
      | None \<Rightarrow> err_message error)"

definition caught :: "recon_row \<Rightarrow> string \<Rightarrow> axios_error \<Rightarrow> 's \<Rightarrow> effect list \<Rightarrow>
    's update_state \<Rightarrow> 's update_state" where
  "caught product ts error s evs st =
     st\<lparr>platform := s,
        syncLog := syncLog st @ [syncEntry product ''error'' ts (errorMessageOf error) ''no''],
        errorCount := errorCount st + 1,
        effects := effects st @ evs @
          [Console (Log (''  Error: '' @ errorMessageOf error) ''error'')]\<rparr>"

text \<open>
  One pass of the \<open>for\<close> loop, for the product at index \<open>i\<close> of \<open>n\<close> products.
  \<open>now i\<close> is the clock reading taken at the top of the pass, \<open>fieldName\<close> is
  \<open>config.sync.fieldName\<close>.
\<close>

definition updateStep ::
  "'s http_get \<Rightarrow> 's http_post \<Rightarrow> string \<Rightarrow> (nat \<Rightarrow> string) \<Rightarrow> nat \<Rightarrow> nat \<Rightarrow> recon_row \<Rightarrow>
   's update_state \<Rightarrow> 's update_state" where
  "updateStep get post fieldName now n i product st =
     (let ts = now i;
          line = Console (Log (''Processing product '' @ show_nat (i + 1) @ ''/'' @ show_nat n @
                   '': '' @ sku product @ '' ('' @ name product @ '')'') ''info'');
          request = HttpGet (product_id product)
      in case getExistingCustomFields get (platform st) (product_id product) of
           (Inl error, s1) \<Rightarrow> caught product ts error s1 [line, request] st
         | (Inr existingFields, s1) \<Rightarrow>
             (case find (\<lambda>field. cf_name field = fieldName) existingFields of
                Some existingSyncField \<Rightarrow>
                  st\<lparr>platform := s1,
                     syncLog := syncLog st @
                       [syncEntry product ''skipped'' ts ''Custom field already exists'' ''no''],
                     skippedCount := skippedCount st + 1,
                     effects := effects st @
                       [line, request,
                        Console (Log (''  Skipping: '' @ fieldName @
                                      '' custom field already exists'') ''info'')]\<rparr>
              | None \<Rightarrow>
                  if length existingFields \<ge> 50
                  then st\<lparr>platform := s1,
                          syncLog := syncLog st @
                            [syncEntry product ''error'' ts
                               ''Maximum custom fields limit reached (50)'' ''no''],
                          errorCount := errorCount st + 1,
                          effects := effects st @
                            [line, request,
                             Console (Log ''  Error: Product has maximum number of custom fields (50)''
                                        ''info'')]\<rparr>
                  else
                    (case addCustomField post s1 (product_id product) fieldName ''1'' of
                       (Inl error, s2) \<Rightarrow>
                         caught product ts error s2
                           [line, request, HttpPost (product_id product) fieldName ''1''] st
                     | (Inr u, s2) \<Rightarrow>
                         st\<lparr>platform := s2,
                            syncLog := syncLog st @ [syncEntry product ''success'' ts [] ''yes''],
                            successCount := successCount st + 1,
                            effects := effects st @
                              [line, request, HttpPost (product_id product) fieldName ''1'',
                               Console (Log (''  Success: Added '' @ fieldName @
                                             '' custom field'') ''info''),
                               Sleep 100]\<rparr>)))"

fun updateLoop ::
  "'s http_get \<Rightarrow> 's http_post \<Rightarrow> string \<Rightarrow> (nat \<Rightarrow> string) \<Rightarrow> nat \<Rightarrow> nat \<Rightarrow> recon_row list \<Rightarrow>
   's update_state \<Rightarrow> 's update_state" where
  "updateLoop get post fieldName now n i [] st = st"
| "updateLoop get post fieldName now n i (product # rest) st =
     updateLoop get post fieldName now n (i + 1) rest
       (updateStep get post fieldName now n i product st)"

text \<open>
  The error breakdown of the summary. \<open>reduce\<close> starts from \<open>{}\<close> and returns that plain
  object, whose properties are the error types with their counts; \<open>PlainObject\<close> holds
  them. \<open>EntryArray\<close> is an array of key and value pairs, as \<open>Object.entries\<close> gives.
  \<open>.map(f)\<close> is a method of arrays only: on a plain object the property \<open>map\<close> is not
  a function and the call throws a TypeError.
\<close>

datatype counts = PlainObject "(string \<times> nat) list" | EntryArray "(string \<times> nat) list"

fun method_map :: "(string \<times> nat \<Rightarrow> string) \<Rightarrow> counts \<Rightarrow> string + string list" where
  "method_map f (EntryArray es) = Inr (map f es)"
| "method_map f (PlainObject ps) =
     Inl ''syncLog.filter(...).reduce(...).map is not a function''"

text \<open>\<open>acc[errorType] = (acc[errorType] || 0) + 1\<close>\<close>

fun bump :: "string \<Rightarrow> (string \<times> nat) list \<Rightarrow> (string \<times> nat) list" where
  "bump k [] = [(k, 1)]"
| "bump k ((k', c) # ps) = (if k = k' then (k', c + 1) # ps else (k', c) # bump k ps)"

text \<open>\<open>log.error_message.split(':')[0] || 'Unknown'\<close>\<close>

definition errorType :: "string \<Rightarrow> string" where
  "errorType message =
     (let t = takeWhile (\<lambda>c. c \<noteq> CHR '':'') message in if t \<noteq> [] then t else ''Unknown'')"

definition errorBreakdown :: "sync_entry list \<Rightarrow> string + string" where
  "errorBreakdown entries =
     (case method_map
             (\<lambda>(t, c). ''  - '' @ t @ '': '' @ show_nat c @ '' products'')
             (PlainObject
                (fold (\<lambda>e acc. bump (errorType (error_message e)) acc)
                      (filter (\<lambda>e. status e = ''error'') entries) []))
      of Inl message \<Rightarrow> Inl message
       | Inr lines \<Rightarrow> Inr (join [CHR 0x0A] lines))"

definition summaryText :: "string \<Rightarrow> nat \<Rightarrow> nat \<Rightarrow> nat \<Rightarrow> nat \<Rightarrow> string \<Rightarrow> string" where
  "summaryText date n successes failures skips breakdown =
     join [CHR 0x0A]
       ['''', ''Product Update Summary'', ''====================='', [],
        ''Date: '' @ date,
        ''Total Products Processed: '' @ show_nat n, [],
        ''Results:'',
        ''- Successfully updated: '' @ show_nat successes,
        ''- Errors: '' @ show_nat failures,
        ''- Skipped: '' @ show_nat skips, [],
        ''Error Breakdown:'',
        breakdown, [],
        ''Next Steps:'',
        ''1. Monitor BigCommerce webhook logs for product/updated events'',
        ''2. Verify products appear in Avalara within 24-48 hours'',
        ''3. Run reconciliation again to confirm sync completion'',
        ''4. Consider removing custom fields after successful sync'', [],
        ''Note: Custom fields trigger the store/product/updated webhook which sends'',
        ''product data to Avalara for registration and classification.'', []]"

datatype update_result = NoUpdates | Totals nat nat nat nat

record 's update_run =
  final :: "'s update_state"
  outcome :: "string + update_result"

text \<open>
  \<open>updateProducts\<close>. \<open>file\<close> is the content of products-to-update.csv (\<open>None\<close> when
  the file does not exist), \<open>s\<close> the platform's state when the run starts,
  \<open>writeRecords\<close> the CSV writer (\<open>Some message\<close> when it rejects). \<open>outcome\<close> is the
  value returned, or \<open>Inl\<close> the message of the error thrown.
\<close>

definition updateProducts ::
  "'s http_get \<Rightarrow> 's http_post \<Rightarrow> string \<Rightarrow> (nat \<Rightarrow> string) \<Rightarrow> (sync_entry list \<Rightarrow> string option) \<Rightarrow>
   's \<Rightarrow> recon_row list option \<Rightarrow> 's update_run" where
  "updateProducts get post fieldName now writeRecords s file =
     (let st0 = \<lparr>platform = s, syncLog = [], successCount = 0, errorCount = 0,
                 skippedCount = 0,
                 effects = [Console (Log ''Starting product update process...'' ''info'')]\<rparr>
      in case file of
           None \<Rightarrow>
             \<lparr>final = st0,
              outcome = Inl (''Products to update file not found: '' @
                ''./output/products-to-update.csv. Please run reconcile-products.js first.'')\<rparr>
         | Some fileRows \<Rightarrow>
             let productsNeedingUpdate =
                   filter (\<lambda>product. exists_in_avalara product = ''no'' \<or>
                                      is_missing_data product = ''yes'') fileRows;
                 n = length productsNeedingUpdate;
                 st1 = st0\<lparr>effects := effects st0 @
                         [Console (Log ''Reading products to update...'' ''info''),
                          Console (Log (''Found '' @ show_nat n @
                                        '' products that need updating'') ''info'')]\<rparr>
             in if n = 0
                then \<lparr>final = st1\<lparr>effects := effects st1 @
                               [Console (Log (''No products need updating. All products are '' @
                                              ''already in sync with Avalara.'') ''info'')]\<rparr>,
                      outcome = Inr NoUpdates\<rparr>
                else
                  let st2 = updateLoop get post fieldName now n 0 productsNeedingUpdate st1;
                      st3 = st2\<lparr>effects := effects st2 @ [WriteRecords (syncLog st2)]\<rparr>;
                      failed = (\<lambda>st message.
                        \<lparr>final = st\<lparr>effects := effects st @
                                   [Console (Log (''Error during product update: '' @ message)
                                               ''error'')]\<rparr>,
                         outcome = Inl message\<rparr>)
                  in (case writeRecords (syncLog st2) of
                        Some message \<Rightarrow> failed st3 message
                      | None \<Rightarrow>
                          let st4 = st3\<lparr>effects := effects st3 @
                                map (\<lambda>t. Console (Log t ''info''))
                                  [''Product update process completed'',
                                   ''Results written to: ./output/product-sync-log.csv'',
                                   ''Summary:'',
                                   ''  - Successfully updated: '' @ show_nat (successCount st2),
                                   ''  - Errors: '' @ show_nat (errorCount st2),
                                   ''  - Skipped: '' @ show_nat (skippedCount st2),
                                   ''  - Total processed: '' @ show_nat n]\<rparr>
                          in (case errorBreakdown (syncLog st2) of
                                Inl message \<Rightarrow> failed st4 message
                              | Inr breakdown \<Rightarrow>
                                  \<lparr>final = st4\<lparr>effects := effects st4 @
                                     [WriteFile ''./output/update-summary.txt''
                                        (summaryText (now n) n (successCount st2) (errorCount st2)
                                           (skippedCount st2) breakdown),
                                      Console (Log (''Summary report written to: '' @
                                                    ''./output/update-summary.txt'') ''info'')]\<rparr>,
                                   outcome = Inr (Totals n (successCount st2) (errorCount st2)
                                                    (skippedCount st2))\<rparr>)))"

text \<open>
  A platform for running the scripts on concrete inputs: it keeps the custom fields of
  every product, answers every \<open>GET\<close> with the fields it holds and stores every field
  it is sent.
\<close>

definition storeGet :: "(string \<Rightarrow> custom_field list) http_get" where
  "storeGet s productId = (Inr (Some (s productId)), s)"

definition storePost :: "(string \<Rightarrow> custom_field list) http_post" where
  "storePost s productId fieldName fieldValue =
     (Inr (), s(productId := s productId @ [\<lparr>cf_name = fieldName, cf_value = fieldValue\<rparr>]))"

section \<open>Notions used to state the properties\<close>

text \<open>
  The records of a page, and whether a page fills the page size (the loop goes on) or
  is shorter (the loop ends).
\<close>

definition pageData :: "'a response \<Rightarrow> 'a list" where
  "pageData r = (case r of Page d \<Rightarrow> d | Failed m \<Rightarrow> [])"

definition isFull :: "nat \<Rightarrow> 'a response \<Rightarrow> bool" where
  "isFull limit r = (case r of Page d \<Rightarrow> limit \<le> length d | Failed m \<Rightarrow> False)"

definition isShort :: "nat \<Rightarrow> 'a response \<Rightarrow> bool" where
  "isShort limit r = (case r of Page d \<Rightarrow> length d < limit | Failed m \<Rightarrow> False)"

text \<open>The two partitions the Catalog Fetcher makes of the fetched products.\<close>

definition validOf :: "product list \<Rightarrow> product list" where
  "validOf products = filter (\<lambda>p. isValidSKU (prod_sku p)) (map processProduct products)"

definition invalidOf :: "product list \<Rightarrow> product list" where
  "invalidOf products = filter (\<lambda>p. \<not> isValidSKU (prod_sku p)) (map processProduct products)"

text \<open>Sample platforms on which the properties are run.\<close>

definition sampleCatalog :: "nat \<Rightarrow> product response" where
  "sampleCatalog page =
     Page [\<lparr>prod_id = JNum 1, prod_sku = JStr ''  '', prod_name = JStr ''A''\<rparr>,
           \<lparr>prod_id = JNum 2, prod_sku = JStr ''S2'', prod_name = JStr ''B''\<rparr>]"

definition okProduct :: product where
  "okProduct = \<lparr>prod_id = JNum 2, prod_sku = JStr ''S2'', prod_name = JStr ''B''\<rparr>"

definition okItem :: item where
  "okItem = \<lparr>item_itemCode = JStr ''S2'', item_itemGroup = JStr ''G'', item_category = JNull\<rparr>"

definition failingCatalog :: "nat \<Rightarrow> product response" where
  "failingCatalog page = (if page = 1 then Page (replicate 250 okProduct) else Failed ''timeout'')"

definition failingRegistry :: "nat \<Rightarrow> item response" where
  "failingRegistry skip = (if skip = 0 then Page (replicate 100 okItem) else Failed ''timeout'')"

text \<open>The key under which the Reconciler stores a registry code and looks a SKU up.\<close>

definition normalized :: "string \<Rightarrow> string" where
  "normalized s = toLowerCase (trim s)"

text \<open>Sample input files of the Reconciler.\<close>

definition registryRows :: "avalara_row list" where
  "registryRows = [\<lparr>itemCode = ''sku1'', itemGroup = ''G'', category = ''C''\<rparr>]"

definition catalogRows :: "bc_row list" where
  "catalogRows = [\<lparr>bc_id = ''1'', bc_sku = ''SKU1'', bc_name = ''A''\<rparr>,
                  \<lparr>bc_id = ''2'', bc_sku = ''SKU2'', bc_name = ''B''\<rparr>]"

definition notRegisteredRow :: recon_row where
  "notRegisteredRow =
     \<lparr>product_id = ''2'', sku = ''SKU2'', name = ''B'', exists_in_avalara = ''no'',
      is_missing_data = ''no'', missing_fields = [], avalara_item_group = [],
      avalara_category = [], reason = ''Product not registered in Avalara''\<rparr>"

definition duplicateRows :: "avalara_row list" where
  "duplicateRows = [\<lparr>itemCode = ''abc-1'', itemGroup = ''Old'', category = ''C''\<rparr>,
                    \<lparr>itemCode = ''ABC-1 '', itemGroup = ''New'', category = ''C''\<rparr>]"

text \<open>
  What the idempotence of the Updater assumes of the platform. \<open>markerVisible\<close>: a
  read of the product's custom fields in this state succeeds and lists the marker.
  \<open>retainsMarker\<close>: a successful create call of the marker makes it visible on that
  product, and no later request of either kind makes a visible marker disappear.
\<close>

definition markerVisible :: "'s http_get \<Rightarrow> string \<Rightarrow> 's \<Rightarrow> string \<Rightarrow> bool" where
  "markerVisible get fieldName s productId =
     (case fst (get s productId) of
        Inr (Some fs) \<Rightarrow> find (\<lambda>field. cf_name field = fieldName) fs \<noteq> None
      | Inr None \<Rightarrow> False
      | Inl error \<Rightarrow> False)"

definition retainsMarker :: "'s http_get \<Rightarrow> 's http_post \<Rightarrow> string \<Rightarrow> bool" where
  "retainsMarker get post fieldName =
     ((\<forall>s productId u s'. post s productId fieldName ''1'' = (Inr u, s') \<longrightarrow>
          markerVisible get fieldName s' productId) \<and>
      (\<forall>s productId q. markerVisible get fieldName s productId \<longrightarrow>
          markerVisible get fieldName (snd (get s q)) productId) \<and>
      (\<forall>s productId q a b. markerVisible get fieldName s productId \<longrightarrow>
          markerVisible get fieldName (snd (post s q a b)) productId))"

text \<open>The state in which the loop reaches the product at index \<open>k\<close>.\<close>

definition reached ::
  "'s http_get \<Rightarrow> 's http_post \<Rightarrow> string \<Rightarrow> (nat \<Rightarrow> string) \<Rightarrow> nat \<Rightarrow> recon_row list \<Rightarrow>
   's update_state \<Rightarrow> nat \<Rightarrow> 's update_state" where
  "reached get post fieldName now n ps st k = updateLoop get post fieldName now n 0 (take k ps) st"

text \<open>The rows of the reconciliation file the Updater processes.\<close>

definition flagged :: "recon_row list \<Rightarrow> recon_row list" where
  "flagged fileRows =
     filter (\<lambda>product. exists_in_avalara product = ''no'' \<or> is_missing_data product = ''yes'')
       fileRows"

text \<open>
  Sample runs of the Updater on the storing platform, with the marker named
  \<open>avalara_sync\<close>: a first run on one flagged product that has no custom field, and
  a second run on the same file, started in the state the first run left.
\<close>

definition firstRun :: "(string \<Rightarrow> custom_field list) update_run" where
  "firstRun =
     updateProducts storeGet storePost ''avalara_sync'' (\<lambda>i. ''2025-01-01T00:00:00.000Z'')
       (\<lambda>rows. None) (\<lambda>productId. []) (Some [notRegisteredRow])"

definition secondRun :: "(string \<Rightarrow> custom_field list) update_run" where
  "secondRun =
     updateProducts storeGet storePost ''avalara_sync'' (\<lambda>i. ''2025-01-02T00:00:00.000Z'')
       (\<lambda>rows. None) (platform (final firstRun)) (Some [notRegisteredRow])"

text \<open>
  The effects that are create calls, those that write a file, and those that reach the
  platform or wait.
\<close>

definition isCreateCall :: "effect \<Rightarrow> bool" where
  "isCreateCall e = (case e of HttpPost productId f v \<Rightarrow> True | _ \<Rightarrow> False)"

definition isFileWrite :: "effect \<Rightarrow> bool" where
  "isFileWrite e = (case e of WriteRecords rows \<Rightarrow> True | WriteFile path content \<Rightarrow> True | _ \<Rightarrow> False)"

definition isRequestOrSleep :: "effect \<Rightarrow> bool" where
  "isRequestOrSleep e =
     (case e of HttpGet productId \<Rightarrow> True | HttpPost productId f v \<Rightarrow> True | Sleep ms \<Rightarrow> True
              | _ \<Rightarrow> False)"

text \<open>
  A run on two flagged products of which the first already has the marker: its row is
  skipped, the second product gets the marker.
\<close>

definition markedRow :: recon_row where
  "markedRow =
     \<lparr>product_id = ''1'', sku = ''SKU1'', name = ''A'', exists_in_avalara = ''yes'',
      is_missing_data = ''yes'', missing_fields = ''category'', avalara_item_group = ''G'',
      avalara_category = [], reason = ''Missing required fields: category''\<rparr>"

definition skipThenAddRun :: "(string \<Rightarrow> custom_field list) update_run" where
  "skipThenAddRun =
     updateProducts storeGet storePost ''avalara_sync'' (\<lambda>i. ''2025-01-01T00:00:00.000Z'')
       (\<lambda>rows. None)
       ((\<lambda>productId. [])(''1'' := [\<lparr>cf_name = ''avalara_sync'', cf_value = ''1''\<rparr>]))
       (Some [markedRow, notRegisteredRow])"

definition fullRow :: "(string \<Rightarrow> custom_field list) update_state" where
  "fullRow =
     updateStep storeGet storePost ''avalara_sync'' (\<lambda>i. ''2025-01-01T00:00:00.000Z'') 1 0
       notRegisteredRow
       \<lparr>platform = (\<lambda>productId. replicate 50 \<lparr>cf_name = ''colour'', cf_value = ''red''\<rparr>),
        syncLog = [], successCount = 0, errorCount = 0, skippedCount = 0, effects = []\<rparr>"

section \<open>Pagination\<close>

lemma upt_front: "i < j \<Longrightarrow> [i..<j] = i # [Suc i..<j]"
  by (simp add: upt_conv_Cons)

lemma bc_loop_full:
  "isFull 250 (get page) \<Longrightarrow>
   paginateBigCommerce_loop get page st =
   paginateBigCommerce_loop get (Suc page)
     (st\<lparr>allResults := allResults st @ pageData (get page), requests := requests st @ [page]\<rparr>)"
  apply (subst paginateBigCommerce_loop.simps)
  apply (cases "get page")
   apply (simp_all add: isFull_def pageData_def)
  done

lemma bc_loop_short:
  "isShort 250 (get page) \<Longrightarrow>
   paginateBigCommerce_loop get page st =
   Some (st\<lparr>allResults := allResults st @ pageData (get page), requests := requests st @ [page]\<rparr>)"
  apply (subst paginateBigCommerce_loop.simps)
  apply (cases "get page")
   apply (simp_all add: isShort_def pageData_def)
  done

lemma bc_loop_failed:
  "get page = Failed m \<Longrightarrow>
   paginateBigCommerce_loop get page st =
   Some (st\<lparr>requests := requests st @ [page],
             console := console st @
               [ConsoleError (''Error fetching page '' @ show_nat page @ '': '' @ m)]\<rparr>)"
  apply (subst paginateBigCommerce_loop.simps)
  apply simp
  done

lemma bc_loop_run:
  "\<forall>j. page \<le> j \<and> j < k \<longrightarrow> isFull 250 (get j) \<Longrightarrow> page \<le> k \<Longrightarrow>
   paginateBigCommerce_loop get page st =
   paginateBigCommerce_loop get k
     (st\<lparr>allResults := allResults st @ concat (map (pageData \<circ> get) [page..<k]),
         requests := requests st @ [page..<k]\<rparr>)"
proof (induction "k - page" arbitrary: page st)
  case 0
  then show ?case by simp
next
  case (Suc d)
  then have lt: "page < k" and full: "isFull 250 (get page)" by auto
  have step: "paginateBigCommerce_loop get page st =
        paginateBigCommerce_loop get (Suc page)
          (st\<lparr>allResults := allResults st @ pageData (get page), requests := requests st @ [page]\<rparr>)"
    using full by (rule bc_loop_full)
  have d: "d = k - Suc page" using Suc.hyps(2) by simp
  have rest: "\<forall>j. Suc page \<le> j \<and> j < k \<longrightarrow> isFull 250 (get j)" using Suc.prems(1) by simp
  have le: "Suc page \<le> k" using lt by simp
  note ih = Suc.hyps(1) [OF d rest le]
  show ?case
    unfolding step ih using lt by (simp add: upt_front)
qed

lemma bc_terminates:
  "page \<le> k \<Longrightarrow> \<not> isFull 250 (get k) \<Longrightarrow> \<exists>r. paginateBigCommerce_loop get page st = Some r"
proof (induction "k - page" arbitrary: page st)
  case 0
  then have eq: "page = k" by simp
  show ?case
  proof (cases "get page")
    case (Page data)
    with 0 eq have "isShort 250 (get page)" by (simp add: isFull_def isShort_def)
    then show ?thesis by (simp add: bc_loop_short)
  next
    case (Failed m)
    then show ?thesis by (simp add: bc_loop_failed)
  qed
next
  case (Suc d)
  show ?case
  proof (cases "isFull 250 (get page)")
    case True
    with Suc.prems have "page \<noteq> k" by auto
    with Suc.prems have le: "Suc page \<le> k" by simp
    have d: "d = k - Suc page" using Suc.hyps(2) by simp
    from Suc.hyps(1) [OF d le Suc.prems(2)] show ?thesis
      unfolding bc_loop_full [of get page, OF True] .
  next
    case False
    show ?thesis
    proof (cases "get page")
      case (Page data)
      with False have "isShort 250 (get page)" by (simp add: isFull_def isShort_def)
      then show ?thesis by (simp add: bc_loop_short)
    next
      case (Failed m)
      then show ?thesis by (simp add: bc_loop_failed)
    qed
  qed
qed


lemma av_loop_full:
  "isFull 100 (get skip) \<Longrightarrow>
   paginateAvalara_loop get skip st =
   paginateAvalara_loop get (skip + 100)
     (st\<lparr>allResults := allResults st @ pageData (get skip), requests := requests st @ [skip]\<rparr>)"
  apply (subst paginateAvalara_loop.simps)
  apply (cases "get skip")
   apply (simp_all add: isFull_def pageData_def)
  done

lemma av_loop_short:
  "isShort 100 (get skip) \<Longrightarrow>
   paginateAvalara_loop get skip st =
   Some (st\<lparr>allResults := allResults st @ pageData (get skip), requests := requests st @ [skip]\<rparr>)"
  apply (subst paginateAvalara_loop.simps)
  apply (cases "get skip")
   apply (simp_all add: isShort_def pageData_def)
  done

lemma av_loop_failed:
  "get skip = Failed m \<Longrightarrow>
   paginateAvalara_loop get skip st =
   Some (st\<lparr>requests := requests st @ [skip],
             console := console st @
               [ConsoleError (''Error fetching skip '' @ show_nat skip @ '': '' @ m)]\<rparr>)"
  apply (subst paginateAvalara_loop.simps)
  apply simp
  done

lemma av_loop_run:
  "\<forall>j. q \<le> j \<and> j < k \<longrightarrow> isFull 100 (get (100 * j)) \<Longrightarrow> q \<le> k \<Longrightarrow>
   paginateAvalara_loop get (100 * q) st =
   paginateAvalara_loop get (100 * k)
     (st\<lparr>allResults := allResults st @ concat (map (\<lambda>j. pageData (get (100 * j))) [q..<k]),
         requests := requests st @ map (\<lambda>j. 100 * j) [q..<k]\<rparr>)"
proof (induction "k - q" arbitrary: q st)
  case 0
  then show ?case by simp
next
  case (Suc d)
  then have lt: "q < k" and full: "isFull 100 (get (100 * q))" by auto
  have step: "paginateAvalara_loop get (100 * q) st =
        paginateAvalara_loop get (100 * Suc q)
          (st\<lparr>allResults := allResults st @ pageData (get (100 * q)),
              requests := requests st @ [100 * q]\<rparr>)"
    unfolding mult_Suc_right [of 100 q] add.commute [of 100 "100 * q"]
    using full by (rule av_loop_full)
  have d: "d = k - Suc q" using Suc.hyps(2) by simp
  have rest: "\<forall>j. Suc q \<le> j \<and> j < k \<longrightarrow> isFull 100 (get (100 * j))" using Suc.prems(1) by simp
  have le: "Suc q \<le> k" using lt by simp
  note ih = Suc.hyps(1) [OF d rest le]
  show ?case
    unfolding step ih using lt by (simp add: upt_front)
qed

lemma av_terminates:
  "q \<le> k \<Longrightarrow> \<not> isFull 100 (get (100 * k)) \<Longrightarrow>
   \<exists>r. paginateAvalara_loop get (100 * q) st = Some r"
proof (induction "k - q" arbitrary: q st)
  case 0
  then have eq: "q = k" by simp
  show ?case
  proof (cases "get (100 * q)")
    case (Page data)
    with 0 eq have "isShort 100 (get (100 * q))" by (simp add: isFull_def isShort_def)
    then show ?thesis by (simp add: av_loop_short)
  next
    case (Failed m)
    then show ?thesis by (simp add: av_loop_failed)
  qed
next
  case (Suc d)
  show ?case
  proof (cases "isFull 100 (get (100 * q))")
    case True
    with Suc.prems have "q \<noteq> k" by auto
    with Suc.prems have le: "Suc q \<le> k" by simp
    have d: "d = k - Suc q" using Suc.hyps(2) by simp
    have step: "paginateAvalara_loop get (100 * q) st =
        paginateAvalara_loop get (100 * Suc q)
          (st\<lparr>allResults := allResults st @ pageData (get (100 * q)),
              requests := requests st @ [100 * q]\<rparr>)"
      unfolding mult_Suc_right [of 100 q] add.commute [of 100 "100 * q"]
      using True by (rule av_loop_full)
    from Suc.hyps(1) [OF d le Suc.prems(2)] show ?thesis
      unfolding step .
  next
    case False
    show ?thesis
    proof (cases "get (100 * q)")
      case (Page data)
      with False have "isShort 100 (get (100 * q))" by (simp add: isFull_def isShort_def)
      then show ?thesis by (simp add: av_loop_short)
    next
      case (Failed m)
      then show ?thesis by (simp add: av_loop_failed)
    qed
  qed
qed

lemma short_not_full: "isShort n r \<Longrightarrow> \<not> isFull n r"
  by (cases r) (simp_all add: isShort_def isFull_def)

lemma bc_short_result:
  assumes "\<forall>j. 1 \<le> j \<and> j < k \<longrightarrow> isFull 250 (get j)" and "1 \<le> k" and "isShort 250 (get k)"
  shows "paginateBigCommerce get =
         Some \<lparr>allResults = concat (map (pageData \<circ> get) [1..<Suc k]),
               requests = [1..<Suc k], console = []\<rparr>"
proof -
  have "\<forall>j. Suc 0 \<le> j \<and> j < k \<longrightarrow> isFull 250 (get j)" using assms(1) by simp
  moreover have "Suc 0 \<le> k" using assms(2) by simp
  ultimately show ?thesis
    unfolding paginateBigCommerce_def
    using assms(3) by (simp add: bc_loop_run [of "Suc 0" k get] bc_loop_short)
qed

lemma bc_failed_result:
  assumes "\<forall>j. 1 \<le> j \<and> j < k \<longrightarrow> isFull 250 (get j)" and "1 \<le> k" and "get k = Failed m"
  shows "paginateBigCommerce get =
         Some \<lparr>allResults = concat (map (pageData \<circ> get) [1..<k]),
               requests = [1..<Suc k],
               console = [ConsoleError (''Error fetching page '' @ show_nat k @ '': '' @ m)]\<rparr>"
proof -
  have "\<forall>j. Suc 0 \<le> j \<and> j < k \<longrightarrow> isFull 250 (get j)" using assms(1) by simp
  moreover have "Suc 0 \<le> k" using assms(2) by simp
  ultimately show ?thesis
    unfolding paginateBigCommerce_def
    using assms(3) by (simp add: bc_loop_run [of "Suc 0" k get] bc_loop_failed)
qed

lemma av_short_result:
  assumes "\<forall>j<k. isFull 100 (get (100 * j))" and "isShort 100 (get (100 * k))"
  shows "paginateAvalara get =
         Some \<lparr>allResults = concat (map (\<lambda>j. pageData (get (100 * j))) [0..<Suc k]),
               requests = map (\<lambda>j. 100 * j) [0..<Suc k], console = []\<rparr>"
proof -
  have "\<forall>j. 0 \<le> j \<and> j < k \<longrightarrow> isFull 100 (get (100 * j))" using assms(1) by simp
  from av_loop_run [OF this, of "\<lparr>allResults = [], requests = [], console = []\<rparr>"] assms(2)
  show ?thesis
    unfolding paginateAvalara_def by (simp add: av_loop_short)
qed

lemma av_failed_result:
  assumes "\<forall>j<k. isFull 100 (get (100 * j))" and "get (100 * k) = Failed m"
  shows "paginateAvalara get =
         Some \<lparr>allResults = concat (map (\<lambda>j. pageData (get (100 * j))) [0..<k]),
               requests = map (\<lambda>j. 100 * j) [0..<Suc k],
               console = [ConsoleError (''Error fetching skip '' @ show_nat (100 * k) @ '': '' @ m)]\<rparr>"
proof -
  have "\<forall>j. 0 \<le> j \<and> j < k \<longrightarrow> isFull 100 (get (100 * j))" using assms(1) by simp
  from av_loop_run [OF this, of "\<lparr>allResults = [], requests = [], console = []\<rparr>"] assms(2)
  show ?thesis
    unfolding paginateAvalara_def by (simp add: av_loop_failed)
qed


text \<open>
  C7. In both pagination loops a page shorter than the page size (250 for the catalog,
  100 for the registry) ends the loop: when the pages before page \<open>k\<close> are full and
  page \<open>k\<close> is short, the requests issued are exactly those up to page \<open>k\<close> and the
  records of all of them are returned. And when some page is short, the loop returns.
\<close>

theorem pagination_ends_at_short_page:
  "((\<forall>j. 1 \<le> j \<and> j < k \<longrightarrow> isFull 250 (getBC j)) \<and> 1 \<le> k \<and> isShort 250 (getBC k) \<longrightarrow>
      paginateBigCommerce getBC =
        Some \<lparr>allResults = concat (map (pageData \<circ> getBC) [1..<Suc k]),
              requests = [1..<Suc k], console = []\<rparr>) \<and>
    ((\<forall>j<m. isFull 100 (getAv (100 * j))) \<and> isShort 100 (getAv (100 * m)) \<longrightarrow>
      paginateAvalara getAv =
        Some \<lparr>allResults = concat (map (\<lambda>j. pageData (getAv (100 * j))) [0..<Suc m]),
              requests = map (\<lambda>j. 100 * j) [0..<Suc m], console = []\<rparr>) \<and>
    ((\<exists>k\<ge>1. isShort 250 (getBC k)) \<longrightarrow> (\<exists>r. paginateBigCommerce getBC = Some r)) \<and>
    ((\<exists>m. isShort 100 (getAv (100 * m))) \<longrightarrow> (\<exists>r. paginateAvalara getAv = Some r))"
proof (intro conjI impI)
  assume "(\<forall>j. 1 \<le> j \<and> j < k \<longrightarrow> isFull 250 (getBC j)) \<and> 1 \<le> k \<and> isShort 250 (getBC k)"
  then show "paginateBigCommerce getBC =
        Some \<lparr>allResults = concat (map (pageData \<circ> getBC) [1..<Suc k]),
              requests = [1..<Suc k], console = []\<rparr>"
    using bc_short_result [of k getBC] by blast
next
  assume "(\<forall>j<m. isFull 100 (getAv (100 * j))) \<and> isShort 100 (getAv (100 * m))"
  then show "paginateAvalara getAv =
        Some \<lparr>allResults = concat (map (\<lambda>j. pageData (getAv (100 * j))) [0..<Suc m]),
              requests = map (\<lambda>j. 100 * j) [0..<Suc m], console = []\<rparr>"
    using av_short_result [of m getAv] by blast
next
  assume "\<exists>k\<ge>1. isShort 250 (getBC k)"
  then obtain k where k: "1 \<le> k" "isShort 250 (getBC k)" by blast
  then have "\<not> isFull 250 (getBC k)" by (simp add: short_not_full)
  with k(1) show "\<exists>r. paginateBigCommerce getBC = Some r"
    unfolding paginateBigCommerce_def by (rule bc_terminates)
next
  assume "\<exists>m. isShort 100 (getAv (100 * m))"
  then obtain m where "isShort 100 (getAv (100 * m))" by blast
  then have nf: "\<not> isFull 100 (getAv (100 * m))" by (simp add: short_not_full)
  have "\<exists>r. paginateAvalara_loop getAv (100 * 0) \<lparr>allResults = [], requests = [], console = []\<rparr> = Some r"
    using _ nf by (rule av_terminates) simp
  then show "\<exists>r. paginateAvalara getAv = Some r"
    unfolding paginateAvalara_def by simp
qed

lemma upt_1_3: "[Suc 0..<3] = [Suc 0, 2]"
  by (simp add: upt_conv_Cons)

lemma upt_0_2: "[0..<2] = [0, Suc 0]"
  by (simp add: upt_conv_Cons)

theorem pagination_ends_at_short_page_witness:
  "paginateBigCommerce (\<lambda>p. if p = 1 then Page (replicate 250 (7::nat)) else Page [8, 9]) =
     Some \<lparr>allResults = replicate 250 7 @ [8, 9], requests = [1, 2], console = []\<rparr> \<and>
   paginateAvalara (\<lambda>s. if s = 0 then Page (replicate 100 (7::nat)) else Page [8]) =
     Some \<lparr>allResults = replicate 100 7 @ [8], requests = [0, 100], console = []\<rparr>"
proof -
  let ?bc = "\<lambda>p::nat. if p = 1 then Page (replicate 250 (7::nat)) else Page [8, 9]"
  let ?av = "\<lambda>s::nat. if s = 0 then Page (replicate 100 (7::nat)) else Page [8]"
  have a: "(\<forall>j. 1 \<le> j \<and> j < 2 \<longrightarrow> isFull 250 (?bc j)) \<and> 1 \<le> (2::nat) \<and> isShort 250 (?bc 2)"
    by (auto simp: isFull_def isShort_def)
  have b: "(\<forall>j<1. isFull 100 (?av (100 * j))) \<and> isShort 100 (?av (100 * 1))"
    by (auto simp: isFull_def isShort_def)
  from pagination_ends_at_short_page [of 2 ?bc 1 ?av] a b
  show ?thesis
    by (simp add: upt_1_3 upt_0_2 pageData_def)
qed

section \<open>The two fetchers\<close>

lemma fetch_bc_result:
  assumes "paginateBigCommerce get = Some pg"
  shows "\<exists>r. fetchBigCommerceProducts get wr = Some r \<and>
             validProducts r = validOf (allResults pg) \<and>
             invalidProducts r = invalidOf (allResults pg) \<and>
             bc_requests r = requests pg \<and>
             bc_written r = (case wr (validOf (allResults pg)) of None \<Rightarrow> Some (validOf (allResults pg)) | Some m \<Rightarrow> None) \<and>
             bc_outcome r = (case wr (validOf (allResults pg)) of None \<Rightarrow> Inr (validOf (allResults pg)) | Some m \<Rightarrow> Inl m) \<and>
             set (console pg) \<subseteq> set (bc_console r) \<and>
             (\<forall>p \<in> set (invalidOf (allResults pg)).
                Log (invalidSkuMessage p) ''error'' \<in> set (bc_console r) \<and>
                Log (''Warning: '' @ show_nat (length (invalidOf (allResults pg))) @
                     '' products found without valid SKUs'') ''error'' \<in> set (bc_console r))"
proof (cases "wr (validOf (allResults pg))")
  case None
  then show ?thesis
    using assms
    by (auto simp: fetchBigCommerceProducts_def Let_def validOf_def invalidOf_def filter_empty_conv)
next
  case (Some m)
  then show ?thesis
    using assms
    by (auto simp: fetchBigCommerceProducts_def Let_def validOf_def invalidOf_def filter_empty_conv)
qed

lemma fetch_av_result:
  assumes "paginateAvalara get = Some pg"
  shows "\<exists>r. fetchAvalaraItems get wr = Some r \<and>
             av_requests r = requests pg \<and>
             av_written r = (case wr (map processItem (allResults pg)) of
                               None \<Rightarrow> Some (map processItem (allResults pg)) | Some m \<Rightarrow> None) \<and>
             av_outcome r = (case wr (map processItem (allResults pg)) of
                               None \<Rightarrow> Inr (map processItem (allResults pg)) | Some m \<Rightarrow> Inl m) \<and>
             set (console pg) \<subseteq> set (av_console r)"
proof (cases "wr (map processItem (allResults pg))")
  case None
  then show ?thesis
    using assms
    by (auto simp: fetchAvalaraItems_def Let_def)
next
  case (Some m)
  then show ?thesis
    using assms
    by (auto simp: fetchAvalaraItems_def Let_def)
qed

text \<open>
  C6. A fetched catalog product whose SKU is empty or only white space is not among the
  rows given to the CSV writer; it is in the invalid partition, whose size the warning
  line reports, and it has an error-typed log line of its own. The run returns the
  valid rows unless the CSV writer itself rejects the write.
\<close>

theorem blank_sku_left_out:
  assumes "paginateBigCommerce get = Some pg"
    and "p \<in> set (allResults pg)"
    and "prod_sku p = JStr s"
    and "trim s = []"
  shows "\<exists>r. fetchBigCommerceProducts get wr = Some r \<and>
             processProduct p \<notin> set (validProducts r) \<and>
             bc_written r = (case wr (validProducts r) of
                               None \<Rightarrow> Some (validProducts r) | Some m \<Rightarrow> None) \<and>
             processProduct p \<in> set (invalidProducts r) \<and>
             Log (''Warning: '' @ show_nat (length (invalidProducts r)) @
                  '' products found without valid SKUs'') ''error'' \<in> set (bc_console r) \<and>
             Log (invalidSkuMessage (processProduct p)) ''error'' \<in> set (bc_console r) \<and>
             bc_outcome r = (case wr (validProducts r) of
                               None \<Rightarrow> Inr (validProducts r) | Some m \<Rightarrow> Inl m)"
proof -
  have sku: "prod_sku (processProduct p) = JStr s"
    using assms(3) by (simp add: processProduct_def or_else_def)
  have bad: "\<not> isValidSKU (prod_sku (processProduct p))"
    using sku assms(4) by simp
  have inv: "processProduct p \<in> set (invalidOf (allResults pg))"
    using bad assms(2) by (simp add: invalidOf_def)
  have nval: "processProduct p \<notin> set (validOf (allResults pg))"
    using bad by (simp add: validOf_def)
  obtain r where r: "fetchBigCommerceProducts get wr = Some r"
    "validProducts r = validOf (allResults pg)"
    "invalidProducts r = invalidOf (allResults pg)"
    "bc_written r = (case wr (validOf (allResults pg)) of
                       None \<Rightarrow> Some (validOf (allResults pg)) | Some m \<Rightarrow> None)"
    "bc_outcome r = (case wr (validOf (allResults pg)) of
                       None \<Rightarrow> Inr (validOf (allResults pg)) | Some m \<Rightarrow> Inl m)"
    "\<forall>p \<in> set (invalidOf (allResults pg)).
        Log (invalidSkuMessage p) ''error'' \<in> set (bc_console r) \<and>
        Log (''Warning: '' @ show_nat (length (invalidOf (allResults pg))) @
             '' products found without valid SKUs'') ''error'' \<in> set (bc_console r)"
    using fetch_bc_result [OF assms(1), of wr] by blast
  from r(6) inv have logs:
    "Log (invalidSkuMessage (processProduct p)) ''error'' \<in> set (bc_console r)"
    "Log (''Warning: '' @ show_nat (length (invalidOf (allResults pg))) @
          '' products found without valid SKUs'') ''error'' \<in> set (bc_console r)"
    by blast+
  show ?thesis
    using r(1) r(2) r(3) r(4) r(5) inv nval logs by (simp split: option.splits)
qed

lemma trim_blanks: "trim ''  '' = []"
  by code_simp

lemma sampleCatalog_run:
  "paginateBigCommerce sampleCatalog =
     Some \<lparr>allResults = [\<lparr>prod_id = JNum 1, prod_sku = JStr ''  '', prod_name = JStr ''A''\<rparr>,
                          \<lparr>prod_id = JNum 2, prod_sku = JStr ''S2'', prod_name = JStr ''B''\<rparr>],
           requests = [1], console = []\<rparr>"
  unfolding paginateBigCommerce_def
  by (simp add: bc_loop_short isShort_def sampleCatalog_def pageData_def)

theorem blank_sku_left_out_witness:
  "\<exists>r. fetchBigCommerceProducts sampleCatalog (\<lambda>rows. None) = Some r \<and>
       \<lparr>prod_id = JNum 1, prod_sku = JStr ''  '', prod_name = JStr ''A''\<rparr> \<notin> set (validProducts r) \<and>
       bc_written r = Some (validProducts r) \<and>
       \<lparr>prod_id = JNum 1, prod_sku = JStr ''  '', prod_name = JStr ''A''\<rparr> \<in> set (invalidProducts r) \<and>
       Log (invalidSkuMessage \<lparr>prod_id = JNum 1, prod_sku = JStr ''  '', prod_name = JStr ''A''\<rparr>)
         ''error'' \<in> set (bc_console r) \<and>
       bc_outcome r = Inr (validProducts r)"
proof -
  let ?p = "\<lparr>prod_id = JNum 1, prod_sku = JStr ''  '', prod_name = JStr ''A''\<rparr>"
  have pp: "processProduct ?p = ?p" by (simp add: processProduct_def or_else_def)
  have "?p \<in> set (allResults \<lparr>allResults = [?p,
           \<lparr>prod_id = JNum 2, prod_sku = JStr ''S2'', prod_name = JStr ''B''\<rparr>],
           requests = [1], console = []\<rparr>)" by simp
  from blank_sku_left_out [OF sampleCatalog_run this _ trim_blanks, of "\<lambda>rows. None"]
  show ?thesis unfolding pp by auto
qed

text \<open>
  C8. When the request for page \<open>k\<close> fails after full pages, the failure is printed
  on the console, page \<open>k\<close> is the last request and is made once, and the records of
  the pages before it are returned; the fetcher hands exactly those records (the valid
  ones, for the catalog) to the CSV writer.
\<close>

theorem failed_page_keeps_earlier_records:
  "((\<forall>j. 1 \<le> j \<and> j < k \<longrightarrow> isFull 250 (getBC j)) \<and> 1 \<le> k \<and> getBC k = Failed e \<longrightarrow>
      paginateBigCommerce getBC =
        Some \<lparr>allResults = concat (map (pageData \<circ> getBC) [1..<k]),
              requests = [1..<Suc k],
              console = [ConsoleError (''Error fetching page '' @ show_nat k @ '': '' @ e)]\<rparr> \<and>
      (\<exists>r. fetchBigCommerceProducts getBC wrBC = Some r \<and>
           bc_requests r = [1..<Suc k] \<and>
           ConsoleError (''Error fetching page '' @ show_nat k @ '': '' @ e) \<in> set (bc_console r) \<and>
           bc_written r =
             (case wrBC (validOf (concat (map (pageData \<circ> getBC) [1..<k]))) of
                None \<Rightarrow> Some (validOf (concat (map (pageData \<circ> getBC) [1..<k])))
              | Some m \<Rightarrow> None))) \<and>
    ((\<forall>j<n. isFull 100 (getAv (100 * j))) \<and> getAv (100 * n) = Failed e' \<longrightarrow>
      paginateAvalara getAv =
        Some \<lparr>allResults = concat (map (\<lambda>j. pageData (getAv (100 * j))) [0..<n]),
              requests = map (\<lambda>j. 100 * j) [0..<Suc n],
              console = [ConsoleError (''Error fetching skip '' @ show_nat (100 * n) @ '': '' @ e')]\<rparr> \<and>
      (\<exists>r. fetchAvalaraItems getAv wrAv = Some r \<and>
           av_requests r = map (\<lambda>j. 100 * j) [0..<Suc n] \<and>
           ConsoleError (''Error fetching skip '' @ show_nat (100 * n) @ '': '' @ e') \<in> set (av_console r) \<and>
           av_written r =
             (case wrAv (map processItem (concat (map (\<lambda>j. pageData (getAv (100 * j))) [0..<n]))) of
                None \<Rightarrow> Some (map processItem (concat (map (\<lambda>j. pageData (getAv (100 * j))) [0..<n])))
              | Some m \<Rightarrow> None)))"
proof (intro conjI impI)
  assume h: "(\<forall>j. 1 \<le> j \<and> j < k \<longrightarrow> isFull 250 (getBC j)) \<and> 1 \<le> k \<and> getBC k = Failed e"
  then have pg: "paginateBigCommerce getBC =
        Some \<lparr>allResults = concat (map (pageData \<circ> getBC) [1..<k]),
              requests = [1..<Suc k],
              console = [ConsoleError (''Error fetching page '' @ show_nat k @ '': '' @ e)]\<rparr>"
    using bc_failed_result [of k getBC e] by blast
  then show "paginateBigCommerce getBC =
        Some \<lparr>allResults = concat (map (pageData \<circ> getBC) [1..<k]),
              requests = [1..<Suc k],
              console = [ConsoleError (''Error fetching page '' @ show_nat k @ '': '' @ e)]\<rparr>" .
  from fetch_bc_result [OF pg, of wrBC, unfolded pagination.select_convs]
  obtain r where r: "fetchBigCommerceProducts getBC wrBC = Some r"
    "bc_requests r = [1..<Suc k]"
    "bc_written r =
       (case wrBC (validOf (concat (map (pageData \<circ> getBC) [1..<k]))) of
          None \<Rightarrow> Some (validOf (concat (map (pageData \<circ> getBC) [1..<k])))
        | Some m \<Rightarrow> None)"
    "set [ConsoleError (''Error fetching page '' @ show_nat k @ '': '' @ e)] \<subseteq> set (bc_console r)"
    by blast
  from r(4) have "ConsoleError (''Error fetching page '' @ show_nat k @ '': '' @ e) \<in> set (bc_console r)"
    by simp
  with r(1) r(2) r(3)
  show "\<exists>r. fetchBigCommerceProducts getBC wrBC = Some r \<and>
           bc_requests r = [1..<Suc k] \<and>
           ConsoleError (''Error fetching page '' @ show_nat k @ '': '' @ e) \<in> set (bc_console r) \<and>
           bc_written r =
             (case wrBC (validOf (concat (map (pageData \<circ> getBC) [1..<k]))) of
                None \<Rightarrow> Some (validOf (concat (map (pageData \<circ> getBC) [1..<k])))
              | Some m \<Rightarrow> None)"
    by blast
next
  assume h: "(\<forall>j<n. isFull 100 (getAv (100 * j))) \<and> getAv (100 * n) = Failed e'"
  then have pg: "paginateAvalara getAv =
        Some \<lparr>allResults = concat (map (\<lambda>j. pageData (getAv (100 * j))) [0..<n]),
              requests = map (\<lambda>j. 100 * j) [0..<Suc n],
              console = [ConsoleError (''Error fetching skip '' @ show_nat (100 * n) @ '': '' @ e')]\<rparr>"
    using av_failed_result [of n getAv e'] by blast
  then show "paginateAvalara getAv =
        Some \<lparr>allResults = concat (map (\<lambda>j. pageData (getAv (100 * j))) [0..<n]),
              requests = map (\<lambda>j. 100 * j) [0..<Suc n],
              console = [ConsoleError (''Error fetching skip '' @ show_nat (100 * n) @ '': '' @ e')]\<rparr>" .
  from fetch_av_result [OF pg, of wrAv, unfolded pagination.select_convs]
  obtain r where r: "fetchAvalaraItems getAv wrAv = Some r"
    "av_requests r = map (\<lambda>j. 100 * j) [0..<Suc n]"
    "av_written r =
       (case wrAv (map processItem (concat (map (\<lambda>j. pageData (getAv (100 * j))) [0..<n]))) of
          None \<Rightarrow> Some (map processItem (concat (map (\<lambda>j. pageData (getAv (100 * j))) [0..<n])))
        | Some m \<Rightarrow> None)"
    "set [ConsoleError (''Error fetching skip '' @ show_nat (100 * n) @ '': '' @ e')] \<subseteq> set (av_console r)"
    by blast
  from r(4) have "ConsoleError (''Error fetching skip '' @ show_nat (100 * n) @ '': '' @ e') \<in> set (av_console r)"
    by simp
  with r(1) r(2) r(3)
  show "\<exists>r. fetchAvalaraItems getAv wrAv = Some r \<and>
           av_requests r = map (\<lambda>j. 100 * j) [0..<Suc n] \<and>
           ConsoleError (''Error fetching skip '' @ show_nat (100 * n) @ '': '' @ e') \<in> set (av_console r) \<and>
           av_written r =
             (case wrAv (map processItem (concat (map (\<lambda>j. pageData (getAv (100 * j))) [0..<n]))) of
                None \<Rightarrow> Some (map processItem (concat (map (\<lambda>j. pageData (getAv (100 * j))) [0..<n])))
              | Some m \<Rightarrow> None)"
    by blast
qed

lemma show_nat_2: "show_nat 2 = ''2''"
  by code_simp

lemma show_nat_100: "show_nat 100 = ''100''"
  by code_simp

lemma okProduct_valid: "validOf (replicate 250 okProduct) = replicate 250 okProduct"
proof -
  have "isValidSKU (JStr ''S2'')" by code_simp
  then show ?thesis
    by (simp add: validOf_def okProduct_def processProduct_def or_else_def)
qed

theorem failed_page_keeps_earlier_records_witness:
  "paginateBigCommerce failingCatalog =
     Some \<lparr>allResults = replicate 250 okProduct, requests = [1, 2],
           console = [ConsoleError ''Error fetching page 2: timeout'']\<rparr> \<and>
   (\<exists>r. fetchBigCommerceProducts failingCatalog (\<lambda>rows. None) = Some r \<and>
        bc_requests r = [1, 2] \<and>
        ConsoleError ''Error fetching page 2: timeout'' \<in> set (bc_console r) \<and>
        bc_written r = Some (replicate 250 okProduct)) \<and>
   paginateAvalara failingRegistry =
     Some \<lparr>allResults = replicate 100 okItem, requests = [0, 100],
           console = [ConsoleError ''Error fetching skip 100: timeout'']\<rparr> \<and>
   (\<exists>r. fetchAvalaraItems failingRegistry (\<lambda>rows. None) = Some r \<and>
        av_requests r = [0, 100] \<and>
        ConsoleError ''Error fetching skip 100: timeout'' \<in> set (av_console r) \<and>
        av_written r = Some (replicate 100 (processItem okItem)))"
proof -
  have a: "(\<forall>j. 1 \<le> j \<and> j < 2 \<longrightarrow> isFull 250 (failingCatalog j)) \<and> 1 \<le> (2::nat) \<and>
           failingCatalog 2 = Failed ''timeout''"
    by (auto simp: isFull_def failingCatalog_def)
  have b: "(\<forall>j<1. isFull 100 (failingRegistry (100 * j))) \<and>
           failingRegistry (100 * 1) = Failed ''timeout''"
    by (auto simp: isFull_def failingRegistry_def)
  have c: "[Suc 0..<2] = [Suc 0]" by (simp add: upt_conv_Cons)
  from failed_page_keeps_earlier_records
         [of 2 failingCatalog "''timeout''" "\<lambda>rows. None" 1 failingRegistry "''timeout''" "\<lambda>rows. None"]
       a b
  show ?thesis
    by (simp add: upt_1_3 upt_0_2 c pageData_def show_nat_2 show_nat_100 okProduct_valid
                  failingCatalog_def failingRegistry_def)
qed

section \<open>The Reconciler\<close>

lemma trim_Nil: "trim [] = []"
  by (simp add: trim_def)

lemma normalized_Nil_iff: "normalized s = [] \<longleftrightarrow> trim s = []"
  by (simp add: normalized_def toLowerCase_def)

lemma buildAvalaraMap_snoc:
  "buildAvalaraMap (items @ [i]) =
     (if trim (itemCode i) \<noteq> [] then (buildAvalaraMap items)(normalized (itemCode i) \<mapsto> i)
      else buildAvalaraMap items)"
  using trim_Nil by (auto simp: buildAvalaraMap_def normalized_def)

lemma buildAvalaraMap_lookup:
  "k \<noteq> [] \<Longrightarrow>
   buildAvalaraMap items k =
     (if filter (\<lambda>i. normalized (itemCode i) = k) items = [] then None
      else Some (last (filter (\<lambda>i. normalized (itemCode i) = k) items)))"
proof (induction items rule: rev_induct)
  case Nil
  then show ?case by (simp add: buildAvalaraMap_def)
next
  case (snoc i items)
  show ?case
  proof (cases "trim (itemCode i) = []")
    case True
    then have "normalized (itemCode i) = []" by (simp add: normalized_Nil_iff)
    then have "normalized (itemCode i) \<noteq> k" using snoc.prems by auto
    with True snoc show ?thesis by (simp add: buildAvalaraMap_snoc)
  next
    case False
    with snoc show ?thesis by (simp add: buildAvalaraMap_snoc)
  qed
qed

lemma buildAvalaraMap_blank: "buildAvalaraMap items [] = None"
proof (induction items rule: rev_induct)
  case Nil
  then show ?case by (simp add: buildAvalaraMap_def)
next
  case (snoc i items)
  show ?case
  proof (cases "trim (itemCode i) = []")
    case True
    with snoc show ?thesis by (simp add: buildAvalaraMap_snoc)
  next
    case False
    then have "normalized (itemCode i) \<noteq> []" by (simp add: normalized_Nil_iff)
    with False snoc show ?thesis by (simp add: buildAvalaraMap_snoc)
  qed
qed

lemma reconcileProduct_absent:
  "m (toLowerCase (trim (bc_sku p))) = None \<Longrightarrow>
   reconcileProduct m p =
     (\<lparr>product_id = bc_id p, sku = bc_sku p, name = bc_name p, exists_in_avalara = ''no'',
       is_missing_data = ''no'', missing_fields = [], avalara_item_group = [],
       avalara_category = [], reason = ''Product not registered in Avalara''\<rparr>, MissingInAvalara)"
  by (simp add: reconcileProduct_def)

lemma reconcileProduct_present:
  "m (toLowerCase (trim (bc_sku p))) = Some i \<Longrightarrow>
   exists_in_avalara (fst (reconcileProduct m p)) = ''yes''"
  by (simp add: reconcileProduct_def Let_def)

lemma reconcileProduct_exclusive:
  "\<not> (exists_in_avalara (fst (reconcileProduct m p)) = ''no'' \<and>
      is_missing_data (fst (reconcileProduct m p)) = ''yes'')"
proof (cases "m (toLowerCase (trim (bc_sku p)))")
  case None
  then show ?thesis by (simp add: reconcileProduct_absent)
next
  case (Some i)
  then show ?thesis by (simp add: reconcileProduct_present)
qed

lemma reconcileStep_rows:
  "set (productsToUpdate (reconcileStep m p st)) \<subseteq>
   insert (fst (reconcileProduct m p)) (set (productsToUpdate st))"
  by (cases "reconcileProduct m p"; cases "snd (reconcileProduct m p)")
     (auto simp: reconcileStep_def)

lemma reconcileLoop_rows:
  "set (productsToUpdate (fold (reconcileStep m) ps st)) \<subseteq>
   set (productsToUpdate st) \<union> (\<lambda>p. fst (reconcileProduct m p)) ` set ps"
proof (induction ps arbitrary: st)
  case Nil
  then show ?case by simp
next
  case (Cons p ps)
  have "set (productsToUpdate (fold (reconcileStep m) ps (reconcileStep m p st))) \<subseteq>
        set (productsToUpdate (reconcileStep m p st)) \<union> (\<lambda>p. fst (reconcileProduct m p)) ` set ps"
    by (rule Cons.IH)
  with reconcileStep_rows [of m p st] show ?case by auto
qed

text \<open>
  C3. No row the Reconciler emits has \<open>exists_in_avalara = no\<close> together with
  \<open>is_missing_data = yes\<close>; and when the normalized SKU is not in the lookup, the
  result keeps \<open>is_missing_data = no\<close>.
\<close>

theorem absent_never_missing_data:
  "(reconcileProducts (Some avalaraItems) (Some bcProducts) = Inr st \<and>
      r \<in> set (productsToUpdate st) \<longrightarrow>
      \<not> (exists_in_avalara r = ''no'' \<and> is_missing_data r = ''yes'')) \<and>
   (buildAvalaraMap avalaraItems (toLowerCase (trim (bc_sku product))) = None \<longrightarrow>
      exists_in_avalara (fst (reconcileProduct (buildAvalaraMap avalaraItems) product)) = ''no'' \<and>
      is_missing_data (fst (reconcileProduct (buildAvalaraMap avalaraItems) product)) = ''no'')"
proof (intro conjI impI)
  assume h: "reconcileProducts (Some avalaraItems) (Some bcProducts) = Inr st \<and>
             r \<in> set (productsToUpdate st)"
  then have "r \<in> (\<lambda>p. fst (reconcileProduct (buildAvalaraMap avalaraItems) p)) ` set bcProducts"
    using reconcileLoop_rows [of "buildAvalaraMap avalaraItems" bcProducts
            "\<lparr>productsToUpdate = [], missingInAvalara = 0, missingData = 0, complete = 0\<rparr>"]
    by (auto simp: reconcileProducts_def)
  then show "\<not> (exists_in_avalara r = ''no'' \<and> is_missing_data r = ''yes'')"
    using reconcileProduct_exclusive by blast
next
  assume "buildAvalaraMap avalaraItems (toLowerCase (trim (bc_sku product))) = None"
  then show "exists_in_avalara (fst (reconcileProduct (buildAvalaraMap avalaraItems) product)) = ''no''"
    by (simp add: reconcileProduct_absent)
next
  assume "buildAvalaraMap avalaraItems (toLowerCase (trim (bc_sku product))) = None"
  then show "is_missing_data (fst (reconcileProduct (buildAvalaraMap avalaraItems) product)) = ''no''"
    by (simp add: reconcileProduct_absent)
qed

lemma sample_reconciliation:
  "reconcileProducts (Some registryRows) (Some catalogRows) =
     Inr \<lparr>productsToUpdate = [notRegisteredRow], missingInAvalara = 1, missingData = 0,
          complete = 1\<rparr>"
  by code_simp

lemma sample_lookup_absent:
  "buildAvalaraMap registryRows (toLowerCase (trim ''SKU2'')) = None"
  by code_simp

theorem absent_never_missing_data_witness:
  "reconcileProducts (Some registryRows) (Some catalogRows) =
     Inr \<lparr>productsToUpdate = [notRegisteredRow], missingInAvalara = 1, missingData = 0,
          complete = 1\<rparr> \<and>
   \<not> (exists_in_avalara notRegisteredRow = ''no'' \<and> is_missing_data notRegisteredRow = ''yes'') \<and>
   exists_in_avalara (fst (reconcileProduct (buildAvalaraMap registryRows)
      \<lparr>bc_id = ''2'', bc_sku = ''SKU2'', bc_name = ''B''\<rparr>)) = ''no'' \<and>
   is_missing_data (fst (reconcileProduct (buildAvalaraMap registryRows)
      \<lparr>bc_id = ''2'', bc_sku = ''SKU2'', bc_name = ''B''\<rparr>)) = ''no''"
  using absent_never_missing_data
          [of registryRows catalogRows
              "\<lparr>productsToUpdate = [notRegisteredRow], missingInAvalara = 1, missingData = 0,
                complete = 1\<rparr>"
              notRegisteredRow "\<lparr>bc_id = ''2'', bc_sku = ''SKU2'', bc_name = ''B''\<rparr>"]
        sample_reconciliation sample_lookup_absent
  by simp

text \<open>
  The rows the Catalog Fetcher writes, which are the catalog rows the Reconciler is
  handed, all have a SKU that is a string and not blank after trimming.
\<close>

lemma valid_sku_nonblank: "isValidSKU v \<Longrightarrow> \<exists>s. v = JStr s \<and> trim s \<noteq> []"
  by (cases v) simp_all

lemma written_rows_have_sku:
  assumes "fetchBigCommerceProducts get wr = Some r"
    and "bc_written r = Some rows"
    and "p \<in> set rows"
  shows "\<exists>s. prod_sku p = JStr s \<and> trim s \<noteq> []"
proof (cases "paginateBigCommerce get")
  case None
  with assms(1) show ?thesis by (simp add: fetchBigCommerceProducts_def)
next
  case (Some pg)
  from fetch_bc_result [OF Some, of wr] assms(1)
  have "bc_written r = (case wr (validOf (allResults pg)) of
                          None \<Rightarrow> Some (validOf (allResults pg)) | Some m \<Rightarrow> None)"
    by auto
  with assms(2) have "rows = validOf (allResults pg)"
    by (simp split: option.splits)
  with assms(3) have "isValidSKU (prod_sku p)" by (simp add: validOf_def)
  then show ?thesis by (rule valid_sku_nonblank)
qed

text \<open>
  C4. The lookup is keyed by the registry code trimmed and lower-cased, the last row
  winning among equal keys, and a catalog SKU is normalized the same way before the
  lookup. For every catalog row the Reconciler is handed, that is, every row whose
  SKU is not blank, and every registry row with the same normalized key, the lookup
  gives the last registry row with that key and the result has
  \<open>exists_in_avalara = yes\<close>. (The loop that fills the lookup leaves out registry
  rows with a blank code; their key is empty, which no SKU of a catalog row has.)
\<close>

theorem nonblank_sku_matches_registry:
  assumes "i \<in> set avalaraItems"
    and "toLowerCase (trim (itemCode i)) = toLowerCase (trim (bc_sku product))"
    and "trim (bc_sku product) \<noteq> []"
  shows "buildAvalaraMap avalaraItems (toLowerCase (trim (bc_sku product))) =
           Some (last (filter (\<lambda>j. toLowerCase (trim (itemCode j)) =
                                    toLowerCase (trim (bc_sku product))) avalaraItems)) \<and>
         exists_in_avalara (fst (reconcileProduct (buildAvalaraMap avalaraItems) product)) = ''yes''"
proof -
  let ?k = "toLowerCase (trim (bc_sku product))"
  have k: "?k \<noteq> []" using assms(3) by (simp add: toLowerCase_def)
  have ne: "filter (\<lambda>j. normalized (itemCode j) = ?k) avalaraItems \<noteq> []"
    using assms(1) assms(2) by (auto simp: filter_empty_conv normalized_def)
  have look: "buildAvalaraMap avalaraItems ?k =
          Some (last (filter (\<lambda>j. normalized (itemCode j) = ?k) avalaraItems))"
    using buildAvalaraMap_lookup [OF k, of avalaraItems] ne by simp
  then show ?thesis
    using reconcileProduct_present [of "buildAvalaraMap avalaraItems" product]
    by (simp add: normalized_def)
qed

lemma normalized_samples:
  "toLowerCase (trim '' ABC-1 '') = ''abc-1''"
  "toLowerCase (trim ''abc-1'') = ''abc-1''"
  "toLowerCase (trim ''ABC-1 '') = ''abc-1''"
  by code_simp+

lemma nonblank_sample: "trim '' ABC-1 '' \<noteq> []"
  by code_simp

theorem nonblank_sku_matches_registry_witness:
  "buildAvalaraMap duplicateRows (toLowerCase (trim '' ABC-1 '')) =
     Some \<lparr>itemCode = ''ABC-1 '', itemGroup = ''New'', category = ''C''\<rparr> \<and>
   exists_in_avalara
     (fst (reconcileProduct (buildAvalaraMap duplicateRows)
             \<lparr>bc_id = ''1'', bc_sku = '' ABC-1 '', bc_name = ''A''\<rparr>)) = ''yes''"
proof -
  let ?i = "\<lparr>itemCode = ''abc-1'', itemGroup = ''Old'', category = ''C''\<rparr>"
  let ?p = "\<lparr>bc_id = ''1'', bc_sku = '' ABC-1 '', bc_name = ''A''\<rparr>"
  have h1: "?i \<in> set duplicateRows" by (simp add: duplicateRows_def)
  have h2: "toLowerCase (trim (itemCode ?i)) = toLowerCase (trim (bc_sku ?p))"
    by (simp add: normalized_samples)
  have h3: "trim (bc_sku ?p) \<noteq> []" by (simp add: nonblank_sample)
  from nonblank_sku_matches_registry [OF h1 h2 h3]
  show ?thesis by (simp add: duplicateRows_def normalized_samples)
qed

section \<open>The Updater: one pass of the loop\<close>

lemma find_absent: "f \<notin> cf_name ` set fs \<Longrightarrow> find (\<lambda>field. cf_name field = f) fs = None"
  by (auto simp: find_None_iff)

lemma updateStep_limit:
  assumes "getExistingCustomFields get (platform st) (product_id product) = (Inr existingFields, s1)"
    and "find (\<lambda>field. cf_name field = fieldName) existingFields = None"
    and "50 \<le> length existingFields"
  shows "updateStep get post fieldName now n i product st =
         st\<lparr>platform := s1,
            syncLog := syncLog st @
              [syncEntry product ''error'' (now i) ''Maximum custom fields limit reached (50)'' ''no''],
            errorCount := errorCount st + 1,
            effects := effects st @
              [Console (Log (''Processing product '' @ show_nat (i + 1) @ ''/'' @ show_nat n @
                   '': '' @ sku product @ '' ('' @ name product @ '')'') ''info''),
               HttpGet (product_id product),
               Console (Log ''  Error: Product has maximum number of custom fields (50)''
                          ''info'')]\<rparr>"
  using assms by (simp add: updateStep_def Let_def)

text \<open>
  C5. In any pass of the Updater's loop, when the fetched custom fields of the product
  do not contain the marker and are 50 or more, the pass appends one log entry with
  status \<open>error\<close>, \<open>custom_field_added = no\<close> and the message that names the limit of
  50, counts an error and no success, and issues no create call.
\<close>

theorem full_field_list_is_error:
  assumes "getExistingCustomFields get (platform st) (product_id product) = (Inr existingFields, s1)"
    and "fieldName \<notin> cf_name ` set existingFields"
    and "50 \<le> length existingFields"
  shows "syncLog (updateStep get post fieldName now n i product st) =
           syncLog st @
             [\<lparr>log_product_id = product_id product, log_sku = sku product,
               log_exists_in_avalara = exists_in_avalara product,
               log_is_missing_data = is_missing_data product,
               status = ''error'', timestamp = now i,
               error_message = ''Maximum custom fields limit reached (50)'',
               custom_field_added = ''no''\<rparr>] \<and>
         errorCount (updateStep get post fieldName now n i product st) = errorCount st + 1 \<and>
         successCount (updateStep get post fieldName now n i product st) = successCount st \<and>
         filter isCreateCall (effects (updateStep get post fieldName now n i product st)) =
           filter isCreateCall (effects st)"
proof -
  have none: "find (\<lambda>field. cf_name field = fieldName) existingFields = None"
    using assms(2) by (rule find_absent)
  show ?thesis
    unfolding updateStep_limit [OF assms(1) none assms(3)]
    by (simp add: syncEntry_def isCreateCall_def)
qed

theorem full_field_list_is_error_witness:
  "syncLog fullRow =
     [\<lparr>log_product_id = ''2'', log_sku = ''SKU2'', log_exists_in_avalara = ''no'',
       log_is_missing_data = ''no'', status = ''error'',
       timestamp = ''2025-01-01T00:00:00.000Z'',
       error_message = ''Maximum custom fields limit reached (50)'',
       custom_field_added = ''no''\<rparr>] \<and>
   errorCount fullRow = 1 \<and> successCount fullRow = 0 \<and>
   filter isCreateCall (effects fullRow) = []"
proof -
  let ?s = "\<lambda>productId::string. replicate 50 \<lparr>cf_name = ''colour'', cf_value = ''red''\<rparr>"
  let ?st = "\<lparr>platform = ?s, syncLog = [], successCount = 0, errorCount = 0, skippedCount = 0,
              effects = []\<rparr>"
  have g: "getExistingCustomFields storeGet (platform ?st) (product_id notRegisteredRow) =
             (Inr (replicate 50 \<lparr>cf_name = ''colour'', cf_value = ''red''\<rparr>), ?s)"
    by (simp add: getExistingCustomFields_def storeGet_def)
  have m: "''avalara_sync'' \<notin> cf_name ` set (replicate 50 \<lparr>cf_name = ''colour'', cf_value = ''red''\<rparr>)"
    by simp
  have l: "50 \<le> length (replicate 50 \<lparr>cf_name = ''colour'', cf_value = ''red''\<rparr>)"
    by simp
  from full_field_list_is_error [OF g m l, of storePost "\<lambda>i. ''2025-01-01T00:00:00.000Z''" 1 0]
  show ?thesis
    by (simp add: fullRow_def notRegisteredRow_def)
qed

section \<open>The Updater: a second run\<close>

lemma getExisting_snd: "snd (getExistingCustomFields get s productId) = snd (get s productId)"
  by (cases "get s productId")
     (auto simp: getExistingCustomFields_def split: sum.splits option.splits)

lemma getExisting_visible:
  assumes "markerVisible get fieldName s productId"
  shows "\<exists>fs x. getExistingCustomFields get s productId = (Inr fs, snd (get s productId)) \<and>
               find (\<lambda>field. cf_name field = fieldName) fs = Some x"
proof (cases "get s productId")
  case (Pair r s')
  with assms show ?thesis
    by (auto simp: markerVisible_def getExistingCustomFields_def split: sum.splits option.splits)
qed

lemma updateStep_skipped:
  assumes "markerVisible get fieldName (platform st) (product_id product)"
  shows "syncLog (updateStep get post fieldName now n i product st) =
           syncLog st @ [syncEntry product ''skipped'' (now i) ''Custom field already exists'' ''no'']"
proof -
  from getExisting_visible [OF assms] obtain fs x where
    "getExistingCustomFields get (platform st) (product_id product) =
       (Inr fs, snd (get (platform st) (product_id product)))"
    "find (\<lambda>field. cf_name field = fieldName) fs = Some x" by blast
  then show ?thesis by (simp add: updateStep_def Let_def)
qed

lemma updateStep_cases:
  obtains
    (get_failed) error s1 where
      "getExistingCustomFields get (platform st) (product_id product) = (Inl error, s1)"
      "updateStep get post fieldName now n i product st =
         caught product (now i) error s1
           [Console (Log (''Processing product '' @ show_nat (i + 1) @ ''/'' @ show_nat n @
                   '': '' @ sku product @ '' ('' @ name product @ '')'') ''info''),
            HttpGet (product_id product)] st"
  | (skipped) fs s1 x where
      "getExistingCustomFields get (platform st) (product_id product) = (Inr fs, s1)"
      "find (\<lambda>field. cf_name field = fieldName) fs = Some x"
      "platform (updateStep get post fieldName now n i product st) = s1"
      "syncLog (updateStep get post fieldName now n i product st) =
         syncLog st @ [syncEntry product ''skipped'' (now i) ''Custom field already exists'' ''no'']"
  | (limit) fs s1 where
      "getExistingCustomFields get (platform st) (product_id product) = (Inr fs, s1)"
      "find (\<lambda>field. cf_name field = fieldName) fs = None" "50 \<le> length fs"
      "platform (updateStep get post fieldName now n i product st) = s1"
      "syncLog (updateStep get post fieldName now n i product st) =
         syncLog st @ [syncEntry product ''error'' (now i)
                         ''Maximum custom fields limit reached (50)'' ''no'']"
  | (post_failed) fs s1 error s2 where
      "getExistingCustomFields get (platform st) (product_id product) = (Inr fs, s1)"
      "find (\<lambda>field. cf_name field = fieldName) fs = None" "length fs < 50"
      "post s1 (product_id product) fieldName ''1'' = (Inl error, s2)"
      "updateStep get post fieldName now n i product st =
         caught product (now i) error s2
           [Console (Log (''Processing product '' @ show_nat (i + 1) @ ''/'' @ show_nat n @
                   '': '' @ sku product @ '' ('' @ name product @ '')'') ''info''),
            HttpGet (product_id product), HttpPost (product_id product) fieldName ''1''] st"
  | (success) fs s1 u s2 where
      "getExistingCustomFields get (platform st) (product_id product) = (Inr fs, s1)"
      "find (\<lambda>field. cf_name field = fieldName) fs = None" "length fs < 50"
      "post s1 (product_id product) fieldName ''1'' = (Inr u, s2)"
      "platform (updateStep get post fieldName now n i product st) = s2"
      "syncLog (updateStep get post fieldName now n i product st) =
         syncLog st @ [syncEntry product ''success'' (now i) [] ''yes'']"
proof (cases "getExistingCustomFields get (platform st) (product_id product)")
  case (Pair r s1)
  show ?thesis
  proof (cases r)
    case (Inl error)
    with Pair show ?thesis by (intro get_failed [of error s1]) (simp_all add: updateStep_def Let_def)
  next
    case (Inr fs)
    show ?thesis
    proof (cases "find (\<lambda>field. cf_name field = fieldName) fs")
      case (Some x)
      with Pair Inr show ?thesis
        by (intro skipped [of fs s1 x]) (simp_all add: updateStep_def Let_def)
    next
      case None
      show ?thesis
      proof (cases "50 \<le> length fs")
        case True
        with Pair Inr None show ?thesis
          by (intro limit [of fs s1]) (simp_all add: updateStep_def Let_def)
      next
        case False
        show ?thesis
        proof (cases "post s1 (product_id product) fieldName ''1''")
          case (Pair r2 s2)
          note P2 = this
          show ?thesis
          proof (cases r2)
            case (Inl error)
            with \<open>getExistingCustomFields get (platform st) (product_id product) = (r, s1)\<close>
              Inr None False P2 show ?thesis
              by (intro post_failed [of fs s1 error s2])
                 (simp_all add: updateStep_def Let_def addCustomField_def)
          next
            case (Inr u)
            with \<open>getExistingCustomFields get (platform st) (product_id product) = (r, s1)\<close>
              \<open>r = Inr fs\<close> None False P2 show ?thesis
              by (intro success [of fs s1 u s2])
                 (simp_all add: updateStep_def Let_def addCustomField_def)
          qed
        qed
      qed
    qed
  qed
qed

lemma updateStep_log:
  "\<exists>e. syncLog (updateStep get post fieldName now n i product st) = syncLog st @ [e] \<and>
       log_product_id e = product_id product"
  by (cases rule: updateStep_cases [where get = get and st = st and product = product and fieldName = fieldName
        and post = post and now = now and n = n and i = i])
     (auto simp: caught_def syncEntry_def)

lemma updateStep_keeps_marker:
  assumes "retainsMarker get post fieldName"
    and "markerVisible get fieldName (platform st) q"
  shows "markerVisible get fieldName (platform (updateStep get post fieldName now n i product st)) q"
proof -
  let ?s1 = "snd (get (platform st) (product_id product))"
  have v1: "markerVisible get fieldName ?s1 q"
    using assms by (simp add: retainsMarker_def)
  have v2: "markerVisible get fieldName (snd (post ?s1 (product_id product) fieldName ''1'')) q"
    using assms(1) v1 by (simp add: retainsMarker_def)
  have s1: "\<And>r s. getExistingCustomFields get (platform st) (product_id product) = (r, s) \<Longrightarrow> s = ?s1"
    using getExisting_snd [of get "platform st" "product_id product"] by simp
  show ?thesis
  proof (cases rule: updateStep_cases [where get = get and st = st and product = product and fieldName = fieldName
        and post = post and now = now and n = n and i = i])
    case (get_failed error s1)
    with s1 v1 show ?thesis by (simp add: caught_def)
  next
    case (skipped fs s1 x)
    with s1 v1 show ?thesis by simp
  next
    case (limit fs s1)
    with s1 v1 show ?thesis by simp
  next
    case (post_failed fs s1' error s2)
    then have "s1' = ?s1" using s1 by simp
    with post_failed v2 show ?thesis by (simp add: caught_def)
  next
    case (success fs s1' u s2)
    then have "s1' = ?s1" using s1 by simp
    with success v2 show ?thesis by simp
  qed
qed

lemma updateStep_success_marks:
  assumes "retainsMarker get post fieldName"
    and "syncLog (updateStep get post fieldName now n i product st) = syncLog st @ [e]"
    and "status e = ''success''"
  shows "markerVisible get fieldName (platform (updateStep get post fieldName now n i product st))
           (product_id product)"
proof (cases rule: updateStep_cases [where get = get and st = st and product = product and fieldName = fieldName
        and post = post and now = now and n = n and i = i])
  case (get_failed error s1)
  with assms(2) assms(3) show ?thesis by (auto simp: caught_def syncEntry_def)
next
  case (skipped fs s1 x)
  with assms(2) assms(3) show ?thesis by (auto simp: syncEntry_def)
next
  case (limit fs s1)
  with assms(2) assms(3) show ?thesis by (auto simp: syncEntry_def)
next
  case (post_failed fs s1 error s2)
  with assms(2) assms(3) show ?thesis by (auto simp: caught_def syncEntry_def)
next
  case (success fs s1 u s2)
  with assms(1) show ?thesis by (simp add: retainsMarker_def)
qed

lemma updateLoop_append:
  "updateLoop get post fieldName now n i (xs @ ys) st =
   updateLoop get post fieldName now n (i + length xs) ys
     (updateLoop get post fieldName now n i xs st)"
  by (induction xs arbitrary: i st) simp_all

lemma updateLoop_keeps_marker:
  assumes "retainsMarker get post fieldName"
  shows "markerVisible get fieldName (platform st) q \<Longrightarrow>
         markerVisible get fieldName (platform (updateLoop get post fieldName now n i ps st)) q"
proof (induction ps arbitrary: i st)
  case Nil
  then show ?case by simp
next
  case (Cons p ps)
  from updateStep_keeps_marker [OF assms Cons.prems]
  have "markerVisible get fieldName (platform (updateStep get post fieldName now n i p st)) q" .
  then show ?case using Cons.IH by simp
qed

lemma updateLoop_log:
  "\<exists>es. syncLog (updateLoop get post fieldName now n i ps st) = syncLog st @ es \<and>
        length es = length ps"
proof (induction ps arbitrary: i st)
  case Nil
  then show ?case by simp
next
  case (Cons p ps)
  obtain e where e: "syncLog (updateStep get post fieldName now n i p st) = syncLog st @ [e]"
    using updateStep_log [of get post fieldName now n i p st] by blast
  obtain es where es:
    "syncLog (updateLoop get post fieldName now n (Suc i) ps
                (updateStep get post fieldName now n i p st)) =
       syncLog (updateStep get post fieldName now n i p st) @ es" "length es = length ps"
    using Cons.IH [of "Suc i"] by blast
  show ?case
    by (rule exI [of _ "e # es"]) (simp add: e es)
qed

lemma updateLoop_split:
  assumes "k < length ps"
  shows "updateLoop get post fieldName now n 0 ps st =
         updateLoop get post fieldName now n (Suc k) (drop (Suc k) ps)
           (updateStep get post fieldName now n k (ps ! k) (reached get post fieldName now n ps st k))"
proof -
  have "ps = take k ps @ (ps ! k # drop (Suc k) ps)"
    using assms by (simp add: id_take_nth_drop)
  then have "updateLoop get post fieldName now n 0 ps st =
             updateLoop get post fieldName now n 0 (take k ps @ (ps ! k # drop (Suc k) ps)) st"
    by simp
  also have "\<dots> = updateLoop get post fieldName now n (Suc k) (drop (Suc k) ps)
           (updateStep get post fieldName now n k (ps ! k) (reached get post fieldName now n ps st k))"
    using assms by (simp add: updateLoop_append reached_def min_def)
  finally show ?thesis .
qed

lemma updateLoop_entry:
  assumes "k < length ps" and "syncLog st = []"
    and "syncLog (updateStep get post fieldName now n k (ps ! k)
                    (reached get post fieldName now n ps st k)) =
         syncLog (reached get post fieldName now n ps st k) @ [e]"
  shows "syncLog (updateLoop get post fieldName now n 0 ps st) ! k = e"
proof -
  obtain es where es: "syncLog (reached get post fieldName now n ps st k) = syncLog st @ es"
    "length es = length (take k ps)"
    unfolding reached_def using updateLoop_log [of get post fieldName now n 0 "take k ps" st] by blast
  obtain es' where es': "syncLog (updateLoop get post fieldName now n (Suc k) (drop (Suc k) ps)
           (updateStep get post fieldName now n k (ps ! k) (reached get post fieldName now n ps st k))) =
     syncLog (updateStep get post fieldName now n k (ps ! k) (reached get post fieldName now n ps st k)) @ es'"
    using updateLoop_log by blast
  have len: "length es = k" using es(2) assms(1) by simp
  have "syncLog (updateLoop get post fieldName now n 0 ps st) = es @ [e] @ es'"
    unfolding updateLoop_split [OF assms(1)] es' assms(3) es(1) assms(2) by simp
  then show ?thesis using len by (simp add: nth_append)
qed

lemma updateProducts_loop:
  "\<exists>st0. platform st0 = s \<and> syncLog st0 = [] \<and>
         syncLog (final (updateProducts get post fieldName now wr s (Some fileRows))) =
           syncLog (updateLoop get post fieldName now (length (flagged fileRows)) 0
                      (flagged fileRows) st0) \<and>
         platform (final (updateProducts get post fieldName now wr s (Some fileRows))) =
           platform (updateLoop get post fieldName now (length (flagged fileRows)) 0
                      (flagged fileRows) st0)"
proof -
  let ?st1 = "\<lparr>platform = s, syncLog = [], successCount = 0, errorCount = 0, skippedCount = 0,
               effects = [Console (Log ''Starting product update process...'' ''info''),
                          Console (Log ''Reading products to update...'' ''info''),
                          Console (Log (''Found '' @ show_nat (length (flagged fileRows)) @
                                        '' products that need updating'') ''info'')]\<rparr>"
  have "syncLog (final (updateProducts get post fieldName now wr s (Some fileRows))) =
           syncLog (updateLoop get post fieldName now (length (flagged fileRows)) 0
                      (flagged fileRows) ?st1) \<and>
         platform (final (updateProducts get post fieldName now wr s (Some fileRows))) =
           platform (updateLoop get post fieldName now (length (flagged fileRows)) 0
                      (flagged fileRows) ?st1)"
    by (simp add: updateProducts_def Let_def flagged_def split: option.splits sum.splits)
  then show ?thesis
    by (intro exI [of _ ?st1]) simp
qed

lemma second_loop_skips:
  assumes ret: "retainsMarker get post fieldName"
    and a: "syncLog a = []" and b: "syncLog b = []"
    and pb: "platform b = platform (updateLoop get post fieldName now1 n1 0 ps a)"
    and k: "k < length ps"
    and ok: "status (syncLog (updateLoop get post fieldName now1 n1 0 ps a) ! k) = ''success''"
  shows "syncLog (updateLoop get post fieldName now2 n2 0 ps b) ! k =
           syncEntry (ps ! k) ''skipped'' (now2 k) ''Custom field already exists'' ''no''"
proof -
  let ?pid = "product_id (ps ! k)"
  let ?A = "reached get post fieldName now1 n1 ps a k"
  let ?B = "reached get post fieldName now2 n2 ps b k"
  obtain e where e: "syncLog (updateStep get post fieldName now1 n1 k (ps ! k) ?A) = syncLog ?A @ [e]"
    using updateStep_log [of get post fieldName now1 n1 k "ps ! k" ?A] by blast
  have "syncLog (updateLoop get post fieldName now1 n1 0 ps a) ! k = e"
    using k a e by (rule updateLoop_entry)
  with ok have "status e = ''success''" by simp
  with ret e have "markerVisible get fieldName
      (platform (updateStep get post fieldName now1 n1 k (ps ! k) ?A)) ?pid"
    by (rule updateStep_success_marks)
  with ret have "markerVisible get fieldName
      (platform (updateLoop get post fieldName now1 n1 (Suc k) (drop (Suc k) ps)
                  (updateStep get post fieldName now1 n1 k (ps ! k) ?A))) ?pid"
    by (rule updateLoop_keeps_marker)
  then have "markerVisible get fieldName (platform b) ?pid"
    unfolding pb updateLoop_split [OF k, of get post fieldName now1 n1 a] .
  with ret have "markerVisible get fieldName (platform ?B) ?pid"
    unfolding reached_def by (rule updateLoop_keeps_marker)
  then have "syncLog (updateStep get post fieldName now2 n2 k (ps ! k) ?B) =
             syncLog ?B @ [syncEntry (ps ! k) ''skipped'' (now2 k) ''Custom field already exists'' ''no'']"
    by (rule updateStep_skipped)
  with k b show ?thesis by (rule updateLoop_entry)
qed

text \<open>
  C9. On a platform that retains the marker, run the Updater on a reconciliation file
  and then again on the same file, the second run starting in the platform state the
  first one left. Both logs have one entry per flagged row, in the order of the rows,
  and every row whose entry in the first log has status \<open>success\<close> has in the second
  log the entry of a skip: status \<open>skipped\<close>, the message that the custom field
  already exists, and \<open>custom_field_added = no\<close>.
\<close>

theorem second_run_skips_first_successes:
  assumes "retainsMarker get post fieldName"
    and "run1 = updateProducts get post fieldName now1 wr1 s (Some fileRows)"
    and "run2 = updateProducts get post fieldName now2 wr2 (platform (final run1)) (Some fileRows)"
    and "k < length (flagged fileRows)"
    and "status (syncLog (final run1) ! k) = ''success''"
  shows "length (syncLog (final run1)) = length (flagged fileRows) \<and>
         length (syncLog (final run2)) = length (flagged fileRows) \<and>
         log_product_id (syncLog (final run1) ! k) = product_id (flagged fileRows ! k) \<and>
         log_product_id (syncLog (final run2) ! k) = product_id (flagged fileRows ! k) \<and>
         status (syncLog (final run2) ! k) = ''skipped'' \<and>
         error_message (syncLog (final run2) ! k) = ''Custom field already exists'' \<and>
         custom_field_added (syncLog (final run2) ! k) = ''no''"
proof -
  let ?ps = "flagged fileRows"
  let ?n = "length ?ps"
  obtain a where a: "platform a = s" "syncLog a = []"
    "syncLog (final run1) = syncLog (updateLoop get post fieldName now1 ?n 0 ?ps a)"
    "platform (final run1) = platform (updateLoop get post fieldName now1 ?n 0 ?ps a)"
    unfolding assms(2) using updateProducts_loop [of s get post fieldName now1 wr1 fileRows] by blast
  obtain b where b: "platform b = platform (final run1)" "syncLog b = []"
    "syncLog (final run2) = syncLog (updateLoop get post fieldName now2 ?n 0 ?ps b)"
    unfolding assms(3)
    using updateProducts_loop [of "platform (final run1)" get post fieldName now2 wr2 fileRows] by blast
  have pb: "platform b = platform (updateLoop get post fieldName now1 ?n 0 ?ps a)"
    using b(1) a(4) by simp
  have ok: "status (syncLog (updateLoop get post fieldName now1 ?n 0 ?ps a) ! k) = ''success''"
    using assms(5) a(3) by simp
  have skip: "syncLog (final run2) ! k =
      syncEntry (?ps ! k) ''skipped'' (now2 k) ''Custom field already exists'' ''no''"
    unfolding b(3) using assms(1) a(2) b(2) pb assms(4) ok by (rule second_loop_skips)
  have l1: "length (syncLog (final run1)) = ?n"
    using updateLoop_log [of get post fieldName now1 ?n 0 ?ps a] a(2) a(3) by auto
  have l2: "length (syncLog (final run2)) = ?n"
    using updateLoop_log [of get post fieldName now2 ?n 0 ?ps b] b(2) b(3) by auto
  obtain e where e: "syncLog (updateStep get post fieldName now1 ?n k (?ps ! k)
                               (reached get post fieldName now1 ?n ?ps a k)) =
                     syncLog (reached get post fieldName now1 ?n ?ps a k) @ [e]"
    "log_product_id e = product_id (?ps ! k)"
    using updateStep_log [of get post fieldName now1 ?n k "?ps ! k"
            "reached get post fieldName now1 ?n ?ps a k"] by blast
  have "syncLog (updateLoop get post fieldName now1 ?n 0 ?ps a) ! k = e"
    using assms(4) a(2) e(1) by (rule updateLoop_entry)
  then have id1: "log_product_id (syncLog (final run1) ! k) = product_id (?ps ! k)"
    using e(2) a(3) by simp
  show ?thesis
    using l1 l2 id1 skip by (simp add: syncEntry_def)
qed

lemma storing_platform_retains: "retainsMarker storeGet storePost f"
  by (auto simp: retainsMarker_def markerVisible_def storeGet_def storePost_def find_None_iff)

lemma firstRun_success: "status (syncLog (final firstRun) ! 0) = ''success''"
  by code_simp

theorem second_run_skips_first_successes_witness:
  "status (syncLog (final firstRun) ! 0) = ''success'' \<and>
   log_product_id (syncLog (final firstRun) ! 0) = ''2'' \<and>
   log_product_id (syncLog (final secondRun) ! 0) = ''2'' \<and>
   status (syncLog (final secondRun) ! 0) = ''skipped'' \<and>
   error_message (syncLog (final secondRun) ! 0) = ''Custom field already exists'' \<and>
   custom_field_added (syncLog (final secondRun) ! 0) = ''no''"
proof -
  have k: "0 < length (flagged [notRegisteredRow])"
    by (simp add: flagged_def notRegisteredRow_def)
  have row: "flagged [notRegisteredRow] ! 0 = notRegisteredRow"
    by (simp add: flagged_def notRegisteredRow_def)
  note run = second_run_skips_first_successes
         [OF storing_platform_retains firstRun_def secondRun_def k firstRun_success, unfolded row]
  from run firstRun_success show ?thesis
    by (simp add: notRegisteredRow_def)
qed

section \<open>The Updater: summary and delay\<close>

text \<open>
  The error breakdown of the Updater's summary calls \<open>.map\<close> on the plain object that
  \<open>reduce\<close> returns, which throws on every input; so every run that processes a
  product and writes its log ends with that TypeError, before the summary is written.
\<close>

lemma errorBreakdown_throws:
  "errorBreakdown entries = Inl ''syncLog.filter(...).reduce(...).map is not a function''"
  by (simp add: errorBreakdown_def)

lemma updateProducts_throws:
  assumes "flagged fileRows \<noteq> []"
    and "wr (syncLog (final (updateProducts get post fieldName now wr s (Some fileRows)))) = None"
  shows "outcome (updateProducts get post fieldName now wr s (Some fileRows)) =
           Inl ''syncLog.filter(...).reduce(...).map is not a function''"
proof -
  let ?st1 = "\<lparr>platform = s, syncLog = [], successCount = 0, errorCount = 0, skippedCount = 0,
               effects = [Console (Log ''Starting product update process...'' ''info''),
                          Console (Log ''Reading products to update...'' ''info''),
                          Console (Log (''Found '' @ show_nat (length (flagged fileRows)) @
                                        '' products that need updating'') ''info'')]\<rparr>"
  have log: "syncLog (final (updateProducts get post fieldName now wr s (Some fileRows))) =
           syncLog (updateLoop get post fieldName now (length (flagged fileRows)) 0
                      (flagged fileRows) ?st1)"
    by (simp add: updateProducts_def Let_def flagged_def split: option.splits sum.splits)
  show ?thesis
    using assms(1) assms(2) [unfolded log]
    by (simp add: updateProducts_def Let_def flagged_def errorBreakdown_throws)
qed

text \<open>
  C1 (the code does not do this). The first sample run processes one flagged product
  with success. It gives the log with its one entry to the CSV writer and then throws
  the TypeError of the error breakdown: the only file written is the log, the summary
  file is never written.
\<close>

theorem summary_is_never_written:
  "outcome firstRun = Inl ''syncLog.filter(...).reduce(...).map is not a function'' \<and>
   filter isFileWrite (effects (final firstRun)) =
     [WriteRecords
        [\<lparr>log_product_id = ''2'', log_sku = ''SKU2'', log_exists_in_avalara = ''no'',
          log_is_missing_data = ''no'', status = ''success'',
          timestamp = ''2025-01-01T00:00:00.000Z'', error_message = [],
          custom_field_added = ''yes''\<rparr>]]"
  by code_simp

text \<open>
  A pass that skips its product because the marker is visible sends its one \<open>GET\<close>
  and does not wait.
\<close>

lemma updateStep_skipped_no_sleep:
  assumes "markerVisible get fieldName (platform st) (product_id product)"
  shows "filter isRequestOrSleep (effects (updateStep get post fieldName now n i product st)) =
           filter isRequestOrSleep (effects st) @ [HttpGet (product_id product)]"
proof -
  from getExisting_visible [OF assms] obtain fs x where
    "getExistingCustomFields get (platform st) (product_id product) =
       (Inr fs, snd (get (platform st) (product_id product)))"
    "find (\<lambda>field. cf_name field = fieldName) fs = Some x" by blast
  then show ?thesis by (simp add: updateStep_def Let_def isRequestOrSleep_def)
qed

text \<open>
  C2 (the code does not do this). In the run on two flagged products of which the first
  already has the marker, the first product is skipped and the second succeeds; the
  requests and waits of the run are the \<open>GET\<close> of the first product, at once the
  \<open>GET\<close> of the second, its \<open>POST\<close>, and only then the one wait of 100 ms. No
  delay is awaited after the skipped product.
\<close>

theorem no_delay_after_skipped_product:
  "map status (syncLog (final skipThenAddRun)) = [''skipped'', ''success''] \<and>
   filter isRequestOrSleep (effects (final skipThenAddRun)) =
     [HttpGet ''1'', HttpGet ''2'', HttpPost ''2'' ''avalara_sync'' ''1'', Sleep 100]"
  by code_simp

end
